theory Spec2Isabelle
  imports Main
begin

section \<open>Platform values read by the code\<close>

text \<open>
  A \<^verbatim>\<open>URL\<close> object is a platform value.  The code under verification reads two of its
  attributes: \<^verbatim>\<open>href\<close> (the exact serialised URL) and \<^verbatim>\<open>origin\<close> (scheme, host and
  port).  Both are strings and are compared with string equality.  The platform's
  \<^verbatim>\<open>Request\<close> constructor looks at two more, \<^verbatim>\<open>username\<close> and \<^verbatim>\<open>password\<close>: the
  credentials of the URL, each the empty string when the URL has none.
\<close>

record url =
  href :: string
  origin :: string
  username :: string
  password :: string

section \<open>federation/send.ts: extractInboxes\<close>

text \<open>
  \<^verbatim>\<open>Recipient\<close> as \<^verbatim>\<open>extractInboxes\<close> reads it: \<^verbatim>\<open>recipient.id\<close>,
  \<^verbatim>\<open>recipient.inboxId\<close> and \<^verbatim>\<open>recipient.endpoints?.sharedInbox\<close>, each of which
  may be null.
\<close>

record endpoints =
  sharedInbox :: "url option"

record recipient =
  recipient_id :: "url option"
  inboxId :: "url option"
  recipient_endpoints :: "endpoints option"

text \<open>
  \<^verbatim>\<open>ExtractInboxesParameters\<close>: \<^verbatim>\<open>preferSharedInbox\<close> and \<^verbatim>\<open>excludeBaseUris\<close>
  are optional, so an omitted one is \<open>None\<close>.
\<close>

record ExtractInboxesParameters =
  recipients :: "recipient list"
  preferSharedInbox :: "bool option"
  excludeBaseUris :: "url list option"

text \<open>
  Lines 47-49: \<^verbatim>\<open>preferSharedInbox ? recipient.endpoints?.sharedInbox ?? recipient.inboxId
  : recipient.inboxId\<close>.  An omitted flag is falsy.
\<close>

definition chosen_inbox :: "bool option \<Rightarrow> recipient \<Rightarrow> url option" where
  "chosen_inbox prefer r =
     (if prefer = Some True
      then (case (case recipient_endpoints r of None \<Rightarrow> None | Some e \<Rightarrow> sharedInbox e) of
              Some u \<Rightarrow> Some u
            | None \<Rightarrow> inboxId r)
      else inboxId r)"

text \<open>
  Lines 51-54: \<^verbatim>\<open>excludeBaseUris != null && excludeBaseUris.some((u) => u.origin == inbox.origin)\<close>.
\<close>

definition origin_excluded :: "url list option \<Rightarrow> url \<Rightarrow> bool" where
  "origin_excluded excl inbox =
     (case excl of None \<Rightarrow> False | Some us \<Rightarrow> list_ex (\<lambda>u. origin u = origin inbox) us)"

text \<open>
  One iteration of the loop body (lines 46-60).  The result object
  \<^verbatim>\<open>Record<string, Set<string>>\<close> is a map from the inbox's \<^verbatim>\<open>href\<close> to a set of
  identity \<^verbatim>\<open>href\<close>s; \<^verbatim>\<open>inboxes[k] ??= new Set()\<close> followed by \<^verbatim>\<open>inboxes[k].add(v)\<close>
  starts from the empty set when the key is absent.
\<close>

definition extract_step ::
  "bool option \<Rightarrow> url list option \<Rightarrow> (string \<rightharpoonup> string set) \<Rightarrow> recipient \<Rightarrow> (string \<rightharpoonup> string set)"
where
  "extract_step prefer excl inboxes r =
     (case chosen_inbox prefer r of
        None \<Rightarrow> inboxes
      | Some inbox \<Rightarrow>
          (case recipient_id r of
             None \<Rightarrow> inboxes
           | Some rid \<Rightarrow>
               if origin_excluded excl inbox then inboxes
               else
                 (let s = (case inboxes (href inbox) of None \<Rightarrow> {} | Some s \<Rightarrow> s)
                  in inboxes(href inbox \<mapsto> insert (href rid) s))))"

fun extract_loop ::
  "bool option \<Rightarrow> url list option \<Rightarrow> (string \<rightharpoonup> string set) \<Rightarrow> recipient list \<Rightarrow> (string \<rightharpoonup> string set)"
where
  "extract_loop prefer excl inboxes [] = inboxes"
| "extract_loop prefer excl inboxes (r # rs) =
     extract_loop prefer excl (extract_step prefer excl inboxes r) rs"

definition extractInboxes :: "ExtractInboxesParameters \<Rightarrow> (string \<rightharpoonup> string set)" where
  "extractInboxes ps =
     extract_loop (preferSharedInbox ps) (excludeBaseUris ps) Map.empty (recipients ps)"

subsection \<open>The reference definition of the Inbox Target Resolver, from the specification\<close>

text \<open>
  Written from the words of the specification (section 4.1), to be compared with
  \<open>extractInboxes\<close>: for each recipient the chosen inbox is the shared inbox if
  \<^verbatim>\<open>preferSharedInbox\<close> and present, else the personal inbox; the recipient is skipped if
  no inbox or no identity is available, or if the chosen inbox's origin matches the origin of
  any exclusion URL; otherwise the identity URL is inserted into the set keyed by the inbox's
  exact URL string.
\<close>

definition spec_shared_inbox :: "recipient \<Rightarrow> url option" where
  "spec_shared_inbox r = Option.bind (recipient_endpoints r) sharedInbox"

definition spec_chosen_inbox :: "bool \<Rightarrow> recipient \<Rightarrow> url option" where
  "spec_chosen_inbox prefer r =
     (if prefer \<and> spec_shared_inbox r \<noteq> None then spec_shared_inbox r else inboxId r)"

definition spec_target :: "bool \<Rightarrow> url list \<Rightarrow> recipient \<Rightarrow> (string \<times> string) option" where
  "spec_target prefer excl r =
     (case (spec_chosen_inbox prefer r, recipient_id r) of
        (Some inbox, Some rid) \<Rightarrow>
          if origin inbox \<in> origin ` set excl then None else Some (href inbox, href rid)
      | _ \<Rightarrow> None)"

definition spec_targets :: "ExtractInboxesParameters \<Rightarrow> (string \<times> string) list" where
  "spec_targets ps =
     List.map_filter
       (spec_target (preferSharedInbox ps = Some True)
          (case excludeBaseUris ps of None \<Rightarrow> [] | Some us \<Rightarrow> us))
       (recipients ps)"

definition extractInboxes_spec :: "ExtractInboxesParameters \<Rightarrow> (string \<rightharpoonup> string set)" where
  "extractInboxes_spec ps =
     (\<lambda>k. let ids = snd ` set (filter (\<lambda>t. fst t = k) (spec_targets ps))
          in if ids = {} then None else Some ids)"

text \<open>The identities collected under one key of a list of (inbox, identity) targets.\<close>

definition ids_at :: "(string \<times> string) list \<Rightarrow> string \<Rightarrow> string set" where
  "ids_at ts k = snd ` set (filter (\<lambda>t. fst t = k) ts)"

text \<open>A concrete recipient list used to evaluate the resolver.\<close>

definition ex_recipients :: "recipient list" where
  "ex_recipients =
     [\<lparr>recipient_id = Some \<lparr>href = ''a/u1'', origin = ''a'', username = '''', password = ''''\<rparr>,
       inboxId = Some \<lparr>href = ''a/u1/in'', origin = ''a'', username = '''', password = ''''\<rparr>,
       recipient_endpoints = Some \<lparr>sharedInbox = Some \<lparr>href = ''a/in'', origin = ''a'', username = '''', password = ''''\<rparr>\<rparr>\<rparr>,
      \<lparr>recipient_id = Some \<lparr>href = ''a/u2'', origin = ''a'', username = '''', password = ''''\<rparr>,
       inboxId = Some \<lparr>href = ''a/u2/in'', origin = ''a'', username = '''', password = ''''\<rparr>,
       recipient_endpoints = None\<rparr>,
      \<lparr>recipient_id = Some \<lparr>href = ''c/u3'', origin = ''c'', username = '''', password = ''''\<rparr>,
       inboxId = Some \<lparr>href = ''a/u2/in'', origin = ''a'', username = '''', password = ''''\<rparr>,
       recipient_endpoints = Some \<lparr>sharedInbox = None\<rparr>\<rparr>,
      \<lparr>recipient_id = Some \<lparr>href = ''b/u4'', origin = ''b'', username = '''', password = ''''\<rparr>,
       inboxId = Some \<lparr>href = ''b/u4/in'', origin = ''b'', username = '''', password = ''''\<rparr>,
       recipient_endpoints = None\<rparr>,
      \<lparr>recipient_id = None,
       inboxId = Some \<lparr>href = ''a/u5/in'', origin = ''a'', username = '''', password = ''''\<rparr>,
       recipient_endpoints = None\<rparr>]"

definition ex_params :: "bool option \<Rightarrow> ExtractInboxesParameters" where
  "ex_params prefer =
     \<lparr>recipients = ex_recipients, preferSharedInbox = prefer,
      excludeBaseUris = Some [\<lparr>href = ''b/'', origin = ''b'', username = '''', password = ''''\<rparr>]\<rparr>"

section \<open>Failures and effects\<close>

text \<open>
  A thrown value.  \<open>TypeError\<close> is the platform's \<^verbatim>\<open>TypeError\<close> (the only class the code
  tests with \<^verbatim>\<open>instanceof\<close>), \<open>Error\<close> is a plain \<^verbatim>\<open>new Error(message)\<close>, and \<open>Thrown\<close>
  is any other value a collaborator may throw (a network failure, a syntax error, ...).
\<close>

datatype error = TypeError string | Error string | Thrown string

text \<open>
  An asynchronous computation is modelled by its outcome (the thrown error or the returned
  value) together with the trace of the external calls and log records it made, in the order
  in which they happened.  A collaborator that is not part of the verified files is a
  parameter; calling it appends one event to the trace.
\<close>

type_synonym ('x, 'ev) io = "(error + 'x) \<times> 'ev list"

definition io_return :: "'x \<Rightarrow> ('x, 'ev) io" where
  "io_return x = (Inr x, [])"

definition io_throw :: "error \<Rightarrow> ('x, 'ev) io" where
  "io_throw e = (Inl e, [])"

definition io_call :: "'ev \<Rightarrow> error + 'x \<Rightarrow> ('x, 'ev) io" where
  "io_call ev outcome = (outcome, [ev])"

definition io_emit :: "'ev \<Rightarrow> (unit, 'ev) io" where
  "io_emit ev = (Inr (), [ev])"

text \<open>An operation of the platform that may throw and calls nothing outside.\<close>

definition io_result :: "error + 'x \<Rightarrow> ('x, 'ev) io" where
  "io_result outcome = (outcome, [])"

text \<open>\<^verbatim>\<open>try { x = await m; ok(x) } catch (e) { err(e) }\<close>, where only \<open>m\<close> is guarded.\<close>

definition io_try ::
  "('x, 'ev) io \<Rightarrow> ('x \<Rightarrow> ('y, 'ev) io) \<Rightarrow> (error \<Rightarrow> ('y, 'ev) io) \<Rightarrow> ('y, 'ev) io"
where
  "io_try m ok err =
     (case m of
        (Inr x, t) \<Rightarrow> (case ok x of (r, t') \<Rightarrow> (r, t @ t'))
      | (Inl e, t) \<Rightarrow> (case err e of (r, t') \<Rightarrow> (r, t @ t')))"

text \<open>Sequencing: \<^verbatim>\<open>x = await m; f(x)\<close>; a throw of \<open>m\<close> propagates.\<close>

definition io_bind :: "('x, 'ev) io \<Rightarrow> ('x \<Rightarrow> ('y, 'ev) io) \<Rightarrow> ('y, 'ev) io" where
  "io_bind m f = io_try m f io_throw"

section \<open>Platform values of federation/send.ts\<close>

text \<open>\<^verbatim>\<open>Array.prototype.join\<close> on strings.\<close>

fun join :: "string \<Rightarrow> string list \<Rightarrow> string" where
  "join sep [] = []"
| "join sep [x] = x"
| "join sep (x # y # ys) = x @ sep @ join sep (y # ys)"

text \<open>The decimal rendering of a number inside a template literal.\<close>

fun show_nat :: "nat \<Rightarrow> string" where
  "show_nat n =
     (if n < 10 then [''0123456789'' ! n]
      else show_nat (n div 10) @ [''0123456789'' ! (n mod 10)])"

declare show_nat.simps [simp del]

text \<open>
  \<^verbatim>\<open>Headers\<close> is the platform's header list: pairs of a name and a value, where names are
  matched without regard to ASCII case.  \<^verbatim>\<open>new Headers(init)\<close> copies \<open>init\<close> (an omitted
  \<open>init\<close> gives the empty list); \<^verbatim>\<open>set(name, value)\<close> overwrites the first header of that
  name and removes the others, or appends the header when there is none; \<^verbatim>\<open>get(name)\<close>
  returns the values of that name joined by a comma and a space, or null.
\<close>

type_synonym Headers = "(string \<times> string) list"

definition lower_char :: "char \<Rightarrow> char" where
  "lower_char c =
     (case map_of (zip ''ABCDEFGHIJKLMNOPQRSTUVWXYZ'' ''abcdefghijklmnopqrstuvwxyz'') c of
        Some l \<Rightarrow> l
      | None \<Rightarrow> c)"

definition same_header_name :: "string \<Rightarrow> string \<Rightarrow> bool" where
  "same_header_name a b = (map lower_char a = map lower_char b)"

definition new_Headers :: "Headers option \<Rightarrow> Headers" where
  "new_Headers init = (case init of None \<Rightarrow> [] | Some hs \<Rightarrow> hs)"

fun Headers_set :: "Headers \<Rightarrow> string \<Rightarrow> string \<Rightarrow> Headers" where
  "Headers_set [] name v = [(name, v)]"
| "Headers_set ((n, w) # hs) name v =
     (if same_header_name n name
      then (n, v) # filter (\<lambda>h. \<not> same_header_name (fst h) name) hs
      else (n, w) # Headers_set hs name v)"

definition Headers_get :: "Headers \<Rightarrow> string \<Rightarrow> string option" where
  "Headers_get hs name =
     (case filter (\<lambda>h. same_header_name (fst h) name) hs of
        [] \<Rightarrow> None
      | h # rest \<Rightarrow> Some (join '', '' (map snd (h # rest))))"

text \<open>
  \<^verbatim>\<open>CryptoKey\<close>: \<^verbatim>\<open>sendActivity\<close> reads \<^verbatim>\<open>privateKey.algorithm.name\<close>; the key's
  \<^verbatim>\<open>type\<close> (\<^verbatim>\<open>"private"\<close>, \<^verbatim>\<open>"public"\<close>) is what a validator looks at.  A key is an
  opaque object: \<open>key_handle\<close> stands for the key material behind it (the internal slot
  handle of the Web Cryptography API), so that two keys of one algorithm and one
  type are different values.
\<close>

record CryptoKey =
  algorithm_name :: string
  key_type :: string
  key_handle :: string

record SenderKeyPair =
  privateKey :: CryptoKey
  keyId :: url

text \<open>
  \<^verbatim>\<open>Activity\<close>: the two attributes \<^verbatim>\<open>sendActivity\<close> reads, \<^verbatim>\<open>activity.id\<close> and
  \<^verbatim>\<open>activity.actorId\<close> (the identity accessor of the actor property, null when the
  activity has no actor).  Everything else an activity holds, its proofs included, lives in
  the record's extension.
\<close>

record activity =
  activity_id :: "url option"
  actorId :: "url option"

record Request =
  request_url :: url
  request_method :: string
  request_headers :: Headers
  request_body :: string

text \<open>
  \<^verbatim>\<open>new Request(input, { method, headers, body })\<close> with a \<^verbatim>\<open>URL\<close> as input.  By the
  Fetch standard the constructor throws a \<^verbatim>\<open>TypeError\<close> when the URL includes credentials,
  that is when its username or its password is not the empty string; the wording of the
  message is the runtime's.  Otherwise the request has the given URL, method, headers and
  body.
\<close>

definition includes_credentials :: "url \<Rightarrow> bool" where
  "includes_credentials u = (username u \<noteq> '''' \<or> password u \<noteq> '''')"

definition new_Request :: "url \<Rightarrow> string \<Rightarrow> Headers \<Rightarrow> string \<Rightarrow> error + Request" where
  "new_Request input m hs body =
     (if includes_credentials input
      then Inl (TypeError (''Request cannot be constructed from a URL that includes '' @
                           ''credentials: '' @ href input))
      else Inr \<lparr>request_url = input, request_method = m, request_headers = hs,
                request_body = body\<rparr>)"

text \<open>
  \<^verbatim>\<open>Response\<close>: \<open>response_text\<close> is the outcome of \<^verbatim>\<open>await response.text()\<close>, which may
  throw.  \<^verbatim>\<open>response.ok\<close> is, by the Fetch standard, true exactly for a status in the range
  200 to 299.
\<close>

record Response =
  status :: nat
  statusText :: string
  response_text :: "error + string"

definition ok :: "Response \<Rightarrow> bool" where
  "ok response = (200 \<le> status response \<and> status response \<le> 299)"

text \<open>
  The collaborators \<^verbatim>\<open>sendActivity\<close> imports or calls, none of which is in the verified
  files: \<^verbatim>\<open>validateCryptoKey\<close> (sig/key.ts), \<^verbatim>\<open>signObject\<close> (sig/proof.ts),
  \<^verbatim>\<open>activity.toJsonLd\<close>, \<^verbatim>\<open>signJsonLd\<close> (sig/ld.ts), \<^verbatim>\<open>JSON.stringify\<close>,
  \<^verbatim>\<open>signRequest\<close> (sig/http.ts) and the platform's \<^verbatim>\<open>fetch\<close>.  Each may throw.  The
  document loader and the context loader (type \<open>'l\<close>) are only ever handed on to them.
\<close>

record ('a, 'd, 'l) send_env =
  validateCryptoKey :: "CryptoKey \<Rightarrow> string \<Rightarrow> error + unit"
  signObject :: "'a \<Rightarrow> CryptoKey \<Rightarrow> url \<Rightarrow> 'l option \<Rightarrow> 'l option \<Rightarrow> error + 'a"
  toJsonLd :: "'a \<Rightarrow> string \<Rightarrow> 'l option \<Rightarrow> error + 'd"
  signJsonLd :: "'d \<Rightarrow> CryptoKey \<Rightarrow> url \<Rightarrow> 'l option \<Rightarrow> error + 'd"
  JSON_stringify :: "'d \<Rightarrow> string"
  signRequest :: "Request \<Rightarrow> CryptoKey \<Rightarrow> url \<Rightarrow> error + Request"
  fetch :: "Request \<Rightarrow> error + Response"

text \<open>
  The events of a send, one per external call or log record, each with the arguments of the
  call.  \<open>LogWarn\<close> carries the message template, the \<^verbatim>\<open>activityId\<close> or \<^verbatim>\<open>inbox\<close>
  property and the \<^verbatim>\<open>keys\<close> property; \<open>LogError\<close> carries the template and the
  \<^verbatim>\<open>activityId\<close>, \<^verbatim>\<open>inbox\<close>, \<^verbatim>\<open>status\<close>, \<^verbatim>\<open>statusText\<close> and \<^verbatim>\<open>error\<close> properties.
\<close>

datatype ('a, 'd) send_event =
    ValidateCryptoKey CryptoKey string
  | SignObject 'a CryptoKey url
  | ToJsonLd 'a
  | SignJsonLd 'd CryptoKey url
  | SignRequest Request CryptoKey url
  | Fetch Request
  | ResponseText
  | LogWarn string string "(string \<times> CryptoKey) list"
  | LogError string string string nat string string

record ('m, 'l) SendActivityParameters =
  activity :: "'m activity_scheme"
  keys :: "SenderKeyPair list"
  inbox :: url
  contextLoader :: "'l option"
  documentLoader :: "'l option"
  headers :: "Headers option"

section \<open>federation/send.ts: sendActivity\<close>

definition no_ld_signature_warning :: string where
  "no_ld_signature_warning =
     ''No supported key found to create a Linked Data signature for '' @
     ''the activity {activityId}.  The activity will be sent without '' @
     ''a Linked Data signature.  In order to create a Linked Data '' @
     ''signature, at least one RSASSA-PKCS1-v1_5 key must be provided.''"

definition no_proof_warning :: string where
  "no_proof_warning =
     ''No supported key found to create a proof for the activity {activityId}.  '' @
     ''The activity will be sent without a proof.  '' @
     ''In order to create a proof, at least one Ed25519 key must be provided.''"

definition no_request_signature_warning :: string where
  "no_request_signature_warning =
     ''No supported key found to sign the request to {inbox}.  '' @
     ''The request will be sent without a signature.  '' @
     ''In order to sign the request, at least one RSASSA-PKCS1-v1_5 key '' @
     ''must be provided.''"

definition send_failure_template :: string where
  "send_failure_template =
     ''Failed to send activity {activityId} to {inbox} ({status} '' @
     ''{statusText}):'' @ [CHR 0x0A] @ ''{error}''"

text \<open>Lines 175-178: \<^verbatim>\<open>keys.map((pair) => ({ keyId: pair.keyId.href, privateKey: pair.privateKey }))\<close>.\<close>

definition log_keys :: "SenderKeyPair list \<Rightarrow> (string \<times> CryptoKey) list" where
  "log_keys ks = map (\<lambda>pair. (href (keyId pair), privateKey pair)) ks"

text \<open>
  The loop over the keys (lines 149-162).  Its state is the activity (reassigned by every
  \<^verbatim>\<open>signObject\<close>), \<^verbatim>\<open>proofCreated\<close> and \<^verbatim>\<open>rsaKey\<close>.
\<close>

fun sign_keys ::
  "('m activity_scheme, 'd, 'l) send_env \<Rightarrow> 'l option \<Rightarrow> 'l option \<Rightarrow> SenderKeyPair list \<Rightarrow>
   'm activity_scheme \<times> bool \<times> SenderKeyPair option \<Rightarrow>
   ('m activity_scheme \<times> bool \<times> SenderKeyPair option, ('m activity_scheme, 'd) send_event) io"
where
  "sign_keys env dl cl [] st = io_return st"
| "sign_keys env dl cl (k # ks) (act, proofCreated, rsaKey) =
     io_bind (io_call (ValidateCryptoKey (privateKey k) ''private'')
                (validateCryptoKey env (privateKey k) ''private''))
       (\<lambda>_. if rsaKey = None \<and> algorithm_name (privateKey k) = ''RSASSA-PKCS1-v1_5''
             then sign_keys env dl cl ks (act, proofCreated, Some k)
             else if algorithm_name (privateKey k) = ''Ed25519''
             then io_bind (io_call (SignObject act (privateKey k) (keyId k))
                             (signObject env act (privateKey k) (keyId k) dl cl))
                    (\<lambda>act'. sign_keys env dl cl ks (act', True, rsaKey))
             else sign_keys env dl cl ks (act, proofCreated, rsaKey))"

text \<open>
  The handling of the response (lines 225-247): nothing on \<^verbatim>\<open>response.ok\<close>; otherwise the
  body is read as text, a failure to read it giving the empty string, the failure is logged
  at error severity and an \<^verbatim>\<open>Error\<close> is thrown.
\<close>

definition failure_message :: "string \<Rightarrow> string \<Rightarrow> Response \<Rightarrow> string \<Rightarrow> string" where
  "failure_message activityId inbox_href response err =
     ''Failed to send activity '' @ activityId @ '' to '' @ inbox_href @ '' ('' @
     show_nat (status response) @ '' '' @ statusText response @ ''):'' @ [CHR 0x0A] @ err"

definition handle_response ::
  "string \<Rightarrow> url \<Rightarrow> Response \<Rightarrow> (unit, ('a, 'd) send_event) io"
where
  "handle_response activityId inbox_url response =
     (if \<not> ok response
      then io_bind (io_try (io_call ResponseText (response_text response))
                      io_return (\<lambda>_. io_return ''''))
             (\<lambda>err.
                io_bind (io_emit (LogError send_failure_template activityId (href inbox_url)
                                    (status response) (statusText response) err))
                  (\<lambda>_. io_throw (Error (failure_message activityId (href inbox_url) response err))))
      else io_return ())"

definition sendActivity ::
  "('m activity_scheme, 'd, 'l) send_env \<Rightarrow> ('m, 'l) SendActivityParameters \<Rightarrow>
   (unit, ('m activity_scheme, 'd) send_event) io"
where
  "sendActivity env ps =
     (case activity_id (activity ps) of
        None \<Rightarrow> io_throw (TypeError ''The activity to send must have an id.'')
      | Some aid \<Rightarrow>
          if actorId (activity ps) = None
          then io_throw (TypeError ''The activity to send must have at least one actor property.'')
          else if length (keys ps) < 1
          then io_throw (TypeError ''The keys must not be empty.'')
          else
            (let activityId = href aid in
             io_bind (sign_keys env (documentLoader ps) (contextLoader ps) (keys ps)
                        (activity ps, False, None))
               (\<lambda>(act, proofCreated, rsaKey).
             io_bind (io_call (ToJsonLd act) (toJsonLd env act ''compact'' (contextLoader ps)))
               (\<lambda>jsonLd.
             io_bind (case rsaKey of
                        None \<Rightarrow>
                          io_bind (io_emit (LogWarn no_ld_signature_warning activityId
                                              (log_keys (keys ps))))
                            (\<lambda>_. io_return jsonLd)
                      | Some k \<Rightarrow>
                          io_call (SignJsonLd jsonLd (privateKey k) (keyId k))
                            (signJsonLd env jsonLd (privateKey k) (keyId k) (contextLoader ps)))
               (\<lambda>jsonLd.
             io_bind (if \<not> proofCreated
                      then io_emit (LogWarn no_proof_warning activityId (log_keys (keys ps)))
                      else io_return ())
               (\<lambda>_.
             (let hdrs = Headers_set (new_Headers (headers ps))
                           ''Content-Type'' ''application/activity+json''
              in
             io_bind (io_result (new_Request (inbox ps) ''POST'' hdrs
                                   (JSON_stringify env jsonLd)))
               (\<lambda>request.
             io_bind (case rsaKey of
                        None \<Rightarrow>
                          io_bind (io_emit (LogWarn no_request_signature_warning
                                              (href (inbox ps)) (log_keys (keys ps))))
                            (\<lambda>_. io_return request)
                      | Some k \<Rightarrow>
                          io_call (SignRequest request (privateKey k) (keyId k))
                            (signRequest env request (privateKey k) (keyId k)))
               (\<lambda>request.
             io_bind (io_call (Fetch request) (fetch env request))
               (\<lambda>response. handle_response activityId (inbox ps) response))))))))))"

subsection \<open>The signing layers, from the specification\<close>

text \<open>
  Written from the words of the specification (sections 3 and 4.2-4.3), to be compared with
  \<open>sendActivity\<close>: one Integrity Proof is attached per Ed25519 key, the message being
  threaded through the attachments; the result is serialized to a compacted document; the
  document is wrapped in a Linked-Data Signature keyed by the RSA signer, or a warning is
  emitted; a separate warning is emitted when there was no Ed25519 key; the request is built
  (the platform refuses a destination URL with credentials) and signed by the same RSA
  signer, or a warning is emitted; the request is executed and the response classified.  The
  layers see only the Ed25519 keys and the RSA signer.
\<close>

definition is_Ed25519 :: "SenderKeyPair \<Rightarrow> bool" where
  "is_Ed25519 k = (algorithm_name (privateKey k) = ''Ed25519'')"

definition is_RSA :: "SenderKeyPair \<Rightarrow> bool" where
  "is_RSA k = (algorithm_name (privateKey k) = ''RSASSA-PKCS1-v1_5'')"

fun attach_proofs ::
  "('a, 'd, 'l) send_env \<Rightarrow> 'l option \<Rightarrow> 'l option \<Rightarrow> 'a \<Rightarrow> SenderKeyPair list \<Rightarrow>
   ('a, ('a, 'd) send_event) io"
where
  "attach_proofs env dl cl act [] = io_return act"
| "attach_proofs env dl cl act (k # ks) =
     io_bind (io_call (SignObject act (privateKey k) (keyId k))
                (signObject env act (privateKey k) (keyId k) dl cl))
       (\<lambda>act'. attach_proofs env dl cl act' ks)"

definition layered_send ::
  "('m activity_scheme, 'd, 'l) send_env \<Rightarrow> ('m, 'l) SendActivityParameters \<Rightarrow> string \<Rightarrow>
   SenderKeyPair list \<Rightarrow> SenderKeyPair option \<Rightarrow> (unit, ('m activity_scheme, 'd) send_event) io"
where
  "layered_send env ps activityId ed_keys rsa_signer =
     io_bind (attach_proofs env (documentLoader ps) (contextLoader ps) (activity ps) ed_keys)
       (\<lambda>proved.
     io_bind (io_call (ToJsonLd proved) (toJsonLd env proved ''compact'' (contextLoader ps)))
       (\<lambda>compacted.
     io_bind (case rsa_signer of
                None \<Rightarrow>
                  io_bind (io_emit (LogWarn no_ld_signature_warning activityId
                                      (log_keys (keys ps))))
                    (\<lambda>_. io_return compacted)
              | Some k \<Rightarrow>
                  io_call (SignJsonLd compacted (privateKey k) (keyId k))
                    (signJsonLd env compacted (privateKey k) (keyId k) (contextLoader ps)))
       (\<lambda>document.
     io_bind (if ed_keys = []
              then io_emit (LogWarn no_proof_warning activityId (log_keys (keys ps)))
              else io_return ())
       (\<lambda>_.
     io_bind (io_result
                (new_Request (inbox ps) ''POST''
                   (Headers_set (new_Headers (headers ps))
                      ''Content-Type'' ''application/activity+json'')
                   (JSON_stringify env document)))
       (\<lambda>unsigned.
     io_bind (case rsa_signer of
                None \<Rightarrow>
                  io_bind (io_emit (LogWarn no_request_signature_warning
                                      (href (inbox ps)) (log_keys (keys ps))))
                    (\<lambda>_. io_return unsigned)
              | Some k \<Rightarrow>
                  io_call (SignRequest unsigned (privateKey k) (keyId k))
                    (signRequest env unsigned (privateKey k) (keyId k)))
       (\<lambda>request.
     io_bind (io_call (Fetch request) (fetch env request))
       (\<lambda>response. handle_response activityId (inbox ps) response)))))))"

text \<open>The trace of a computation without its key validation events.\<close>

definition is_validation :: "('a, 'd) send_event \<Rightarrow> bool" where
  "is_validation ev = (case ev of ValidateCryptoKey _ _ \<Rightarrow> True | _ \<Rightarrow> False)"

definition without_validation :: "('x, ('a, 'd) send_event) io \<Rightarrow> ('x, ('a, 'd) send_event) io" where
  "without_validation m = (fst m, filter (\<lambda>ev. \<not> is_validation ev) (snd m))"

subsection \<open>A concrete environment\<close>

text \<open>
  An activity with its proofs, and collaborators that record what they were given:
  \<open>signObject\<close> appends the key's id to the proofs, \<open>toJsonLd\<close> lists the proofs,
  \<open>signJsonLd\<close> adds the key's id to the document, \<open>signRequest\<close> adds a signature header
  naming the key unless there is one already, and \<open>fetch\<close> answers with a given response.
\<close>

record proved_activity = activity +
  proofs :: "string list"

text \<open>
  Modelled from the spec: \<^verbatim>\<open>validateCryptoKey\<close> (sig/key.ts, which is not among the
  verified files).  The specification has every key pair "validated for correct purpose
  (private) and a supported algorithm", the supported algorithms being a closed set that
  holds the RSA signing scheme and Ed25519, and has a wrong purpose or an unsupported
  algorithm always fatal.  The validator accepts a key of the purpose asked for whose
  algorithm is one of those two and throws for any other key; the wording of its messages is
  not given by the specification.
\<close>

definition ex_validate :: "CryptoKey \<Rightarrow> string \<Rightarrow> error + unit" where
  "ex_validate k purpose =
     (if key_type k \<noteq> purpose then Inl (TypeError ''The key is not a private key.'')
      else if algorithm_name k = ''RSASSA-PKCS1-v1_5'' \<or> algorithm_name k = ''Ed25519''
      then Inr ()
      else Inl (TypeError ''Unsupported algorithm.''))"

definition ex_env :: "Response \<Rightarrow> (proved_activity, string, unit) send_env" where
  "ex_env response =
     \<lparr>validateCryptoKey = ex_validate,
      signObject = (\<lambda>a pk kid dl cl. Inr (a\<lparr>proofs := proofs a @ [href kid]\<rparr>)),
      toJsonLd = (\<lambda>a fmt cl. Inr (''doc:'' @ join '','' (proofs a))),
      signJsonLd = (\<lambda>d pk kid cl. Inr (d @ '';ld='' @ href kid)),
      JSON_stringify = (\<lambda>d. d),
      signRequest = (\<lambda>r pk kid.
         Inr (r\<lparr>request_headers :=
                  (if Headers_get (request_headers r) ''Signature'' = None
                   then request_headers r @ [(''Signature'', href kid)]
                   else request_headers r)\<rparr>)),
      fetch = (\<lambda>r. Inr response)\<rparr>"

text \<open>
  The same collaborators with a validator whose closed set of supported algorithms also
  holds ECDSA.
\<close>

definition ex_env_ecdsa :: "Response \<Rightarrow> (proved_activity, string, unit) send_env" where
  "ex_env_ecdsa response =
     (ex_env response)
       \<lparr>validateCryptoKey :=
          (\<lambda>k purpose. if algorithm_name k = ''ECDSA'' \<and> key_type k = purpose then Inr ()
                        else ex_validate k purpose)\<rparr>"

text \<open>A private key of the given algorithm; its id names its key material.\<close>

definition ex_key :: "string \<Rightarrow> string \<Rightarrow> SenderKeyPair" where
  "ex_key alg kid =
     \<lparr>privateKey = \<lparr>algorithm_name = alg, key_type = ''private'', key_handle = kid\<rparr>,
      keyId = \<lparr>href = kid, origin = ''a'', username = '''', password = ''''\<rparr>\<rparr>"

definition ex_activity :: proved_activity where
  "ex_activity =
     \<lparr>activity_id = Some \<lparr>href = ''a/1'', origin = ''a'', username = '''', password = ''''\<rparr>,
      actorId = Some \<lparr>href = ''a/u'', origin = ''a'', username = '''', password = ''''\<rparr>,
      proofs = []\<rparr>"

definition ex_send ::
  "proved_activity \<Rightarrow> SenderKeyPair list \<Rightarrow> Headers option \<Rightarrow>
   (unit proved_activity_ext, unit) SendActivityParameters"
where
  "ex_send a ks hs =
     \<lparr>activity = a, keys = ks, inbox = \<lparr>href = ''b/in'', origin = ''b'', username = '''', password = ''''\<rparr>,
      contextLoader = None, documentLoader = None, headers = hs\<rparr>"

definition ex_accepted :: Response where
  "ex_accepted = \<lparr>status = 202, statusText = ''Accepted'', response_text = Inr ''''\<rparr>"

definition ex_public_key :: SenderKeyPair where
  "ex_public_key =
     \<lparr>privateKey = \<lparr>algorithm_name = ''Ed25519'', key_type = ''public'', key_handle = ''k9''\<rparr>,
      keyId = \<lparr>href = ''k9'', origin = ''a'', username = '''', password = ''''\<rparr>\<rparr>"

definition ex_response :: "nat \<Rightarrow> string \<Rightarrow> error + string \<Rightarrow> Response" where
  "ex_response code phrase body = \<lparr>status = code, statusText = phrase, response_text = body\<rparr>"

definition ex_proved :: "string list \<Rightarrow> proved_activity" where
  "ex_proved ps = ex_activity\<lparr>proofs := ps\<rparr>"

definition ex_request :: "Headers \<Rightarrow> string \<Rightarrow> Request" where
  "ex_request hs body =
     \<lparr>request_url = \<lparr>href = ''b/in'', origin = ''b'', username = '''', password = ''''\<rparr>, request_method = ''POST'',
      request_headers = hs, request_body = body\<rparr>"

definition ex_keys :: "SenderKeyPair list" where
  "ex_keys =
     [ex_key ''Ed25519'' ''k1'', ex_key ''RSASSA-PKCS1-v1_5'' ''k2'',
      ex_key ''RSASSA-PKCS1-v1_5'' ''k3'', ex_key ''Ed25519'' ''k4'']"

subsection \<open>The part of sendActivity after the loop over the keys\<close>

text \<open>
  Lines 163-247 of \<^verbatim>\<open>sendActivity\<close> as a function of the loop's final state; the proofs
  split \<open>sendActivity\<close> into the loop and this continuation.
\<close>

definition send_rest ::
  "('m activity_scheme, 'd, 'l) send_env \<Rightarrow> ('m, 'l) SendActivityParameters \<Rightarrow> string \<Rightarrow>
   'm activity_scheme \<Rightarrow> bool \<Rightarrow> SenderKeyPair option \<Rightarrow>
   (unit, ('m activity_scheme, 'd) send_event) io"
where
  "send_rest env ps activityId act proofCreated rsaKey =
     io_bind (io_call (ToJsonLd act) (toJsonLd env act ''compact'' (contextLoader ps)))
       (\<lambda>jsonLd.
     io_bind (case rsaKey of
                None \<Rightarrow>
                  io_bind (io_emit (LogWarn no_ld_signature_warning activityId
                                      (log_keys (keys ps))))
                    (\<lambda>_. io_return jsonLd)
              | Some k \<Rightarrow>
                  io_call (SignJsonLd jsonLd (privateKey k) (keyId k))
                    (signJsonLd env jsonLd (privateKey k) (keyId k) (contextLoader ps)))
       (\<lambda>jsonLd.
     io_bind (if \<not> proofCreated
              then io_emit (LogWarn no_proof_warning activityId (log_keys (keys ps)))
              else io_return ())
       (\<lambda>_.
     (let hdrs = Headers_set (new_Headers (headers ps))
                   ''Content-Type'' ''application/activity+json''
      in
     io_bind (io_result (new_Request (inbox ps) ''POST'' hdrs (JSON_stringify env jsonLd)))
       (\<lambda>request.
     io_bind (case rsaKey of
                None \<Rightarrow>
                  io_bind (io_emit (LogWarn no_request_signature_warning
                                      (href (inbox ps)) (log_keys (keys ps))))
                    (\<lambda>_. io_return request)
              | Some k \<Rightarrow>
                  io_call (SignRequest request (privateKey k) (keyId k))
                    (signRequest env request (privateKey k) (keyId k)))
       (\<lambda>request.
     io_bind (io_call (Fetch request) (fetch env request))
       (\<lambda>response. handle_response activityId (inbox ps) response)))))))"

subsection \<open>Monitors of a trace\<close>




definition is_Fetch :: "('a, 'd) send_event \<Rightarrow> bool" where
  "is_Fetch ev = (case ev of Fetch _ \<Rightarrow> True | _ \<Rightarrow> False)"

text \<open>
  A request carries the content type of an activity and every other header of the caller's
  header list \<open>init\<close>.
\<close>

definition activity_headers :: "Headers option \<Rightarrow> Request \<Rightarrow> bool" where
  "activity_headers init req =
     (Headers_get (request_headers req) ''Content-Type'' = Some ''application/activity+json'' \<and>
      (\<forall>name. \<not> same_header_name name ''Content-Type'' \<longrightarrow>
         Headers_get (new_Headers init) name \<noteq> None \<longrightarrow>
         Headers_get (request_headers req) name = Headers_get (new_Headers init) name))"

text \<open>An assumption on the external request signer: it keeps the headers it is given.\<close>

definition signer_keeps_headers :: "('a, 'd, 'l) send_env \<Rightarrow> bool" where
  "signer_keeps_headers env =
     (\<forall>req pk kid req' name.
        signRequest env req pk kid = Inr req' \<longrightarrow>
        Headers_get (request_headers req) name \<noteq> None \<longrightarrow>
        Headers_get (request_headers req') name = Headers_get (request_headers req) name)"

text \<open>
  The outcome \<open>r\<close> and trace \<open>t\<close> of a send whose single request \<open>request\<close> was answered by
  \<open>response\<close>: success exactly for a 2xx status; otherwise the body is read (an unreadable
  body counting as the empty string), the failure is logged at error severity and an
  \<^verbatim>\<open>Error\<close> with the formatted message is thrown.  There is exactly one fetch.
\<close>

definition delivered ::
  "string \<Rightarrow> url \<Rightarrow> Request \<Rightarrow> Response \<Rightarrow> error + unit \<Rightarrow> ('a, 'd) send_event list \<Rightarrow> bool"
where
  "delivered activityId inbox_url request response r t =
     ((r = Inr ()) = ok response \<and>
      length (filter is_Fetch t) = 1 \<and>
      (ok response \<longrightarrow> (\<exists>pre. t = pre @ [Fetch request])) \<and>
      (\<not> ok response \<longrightarrow>
         (let body = (case response_text response of Inl e \<Rightarrow> '''' | Inr text \<Rightarrow> text) in
          r = Inl (Error (failure_message activityId (href inbox_url) response body)) \<and>
          (\<exists>pre. t = pre @
             [Fetch request, ResponseText,
              LogError send_failure_template activityId (href inbox_url)
                (status response) (statusText response) body]))))"

section \<open>codegen/property.ts: the accessors generated for a property\<close>

text \<open>
  \<^verbatim>\<open>generateProperty\<close> emits, for a property whose range is not all scalar, the methods
  \<^verbatim>\<open>#fetchX\<close>, \<^verbatim>\<open>#x_fromJsonLd\<close>, \<^verbatim>\<open>get xId\<close>, \<^verbatim>\<open>getX\<close>, \<^verbatim>\<open>get xIds\<close> and
  \<^verbatim>\<open>getXs\<close>.  The definitions below are those methods, as functions of the schema the
  generator was given (\<open>types\<close> and the property) and of the instance they run on.  The
  tracer spans the methods open and close are left out.
\<close>

subsection \<open>Documents\<close>

text \<open>
  A JSON value.  On such values \<^verbatim>\<open>x != null && typeof x === "object" && k in x\<close> holds
  exactly of an object with the key \<open>k\<close>, for a key that is neither an array index nor
  \<^verbatim>\<open>length\<close>; \<^verbatim>\<open>"@context"\<close> is such a key.
\<close>

datatype json =
    JNull
  | JBool bool
  | JNumber int
  | JString string
  | JArray "json list"
  | JObject "(string \<times> json) list"

text \<open>\<^verbatim>\<open>x != null && typeof x === "object" && "@context" in x\<close>, for a value that may be undefined.\<close>

definition has_context :: "json option \<Rightarrow> bool" where
  "has_context x =
     (case x of Some (JObject members) \<Rightarrow> ''@context'' \<in> fst ` set members | _ \<Rightarrow> False)"

text \<open>\<^verbatim>\<open>x[k]\<close> on a value that passed the test above: the member, or undefined.\<close>

definition js_member :: "json option \<Rightarrow> string \<Rightarrow> json option" where
  "js_member x k = (case x of Some (JObject members) \<Rightarrow> map_of members k | _ \<Rightarrow> None)"

text \<open>\<^verbatim>\<open>Array.isArray(prop) ? prop[i] : prop\<close>; an index out of range gives undefined.\<close>

definition element :: "json \<Rightarrow> nat \<Rightarrow> json option" where
  "element prop i =
     (case prop of
        JArray xs \<Rightarrow> (if i < length xs then Some (xs ! i) else None)
      | _ \<Rightarrow> Some prop)"

text \<open>
  Lines 192-207 and 250-266, emitted only when the property has a compact name: the test on
  \<^verbatim>\<open>this._cachedJsonLd\<close> and the inline sub-document it selects for position \<open>i\<close>.
\<close>

definition cached_fragment :: "string option \<Rightarrow> json option \<Rightarrow> nat \<Rightarrow> json option" where
  "cached_fragment compact cached i =
     (case compact of
        None \<Rightarrow> None
      | Some cn \<Rightarrow>
          if has_context cached \<and> js_member cached cn \<noteq> None
          then (case js_member cached cn of
                  None \<Rightarrow> None
                | Some prop \<Rightarrow>
                    (let obj = element prop i
                     in if has_context obj then obj else None))
          else None)"

subsection \<open>Objects, slots and the schema\<close>

text \<open>
  A Federated Object, as far as the accessors read one: its \<^verbatim>\<open>id\<close>.  A slot of a
  property holds a \<^verbatim>\<open>URL\<close> (a reference) or an object.
\<close>

record fobject =
  object_id :: "url option"

datatype 'o slot = Reference url | Inline 'o

type_synonym loader = "string \<Rightarrow> error + json"

text \<open>
  The instance the methods run on: the property's field, \<^verbatim>\<open>_cachedJsonLd\<close> (undefined when
  the object was not parsed from a document), \<^verbatim>\<open>_documentLoader\<close> and
  \<^verbatim>\<open>_contextLoader\<close>.
\<close>

record 'o self =
  field :: "'o slot list"
  cachedJsonLd :: "json option"
  this_documentLoader :: "loader option"
  this_contextLoader :: "loader option"

record options =
  options_documentLoader :: "loader option"
  options_contextLoader :: "loader option"
  suppressError :: "bool option"

text \<open>
  The schema: of a \<^verbatim>\<open>TypeSchema\<close> the emitted code uses the \<^verbatim>\<open>name\<close>; of a
  \<^verbatim>\<open>PropertySchema\<close> the \<^verbatim>\<open>range\<close> (type URIs, in declared order) and the
  \<^verbatim>\<open>compactName\<close>.
\<close>

record TypeSchema =
  type_name :: string

record PropertySchema =
  property_range :: "string list"
  compactName :: "string option"

text \<open>
  What the emitted code calls: the static \<^verbatim>\<open>fromJsonLd\<close> of the class of a given name,
  with the document and the two loaders, and \<^verbatim>\<open>getDocumentLoader()\<close>.
\<close>

record 'o vocab =
  fromJsonLd :: "string \<Rightarrow> json \<Rightarrow> loader \<Rightarrow> loader \<Rightarrow> error + 'o"
  getDocumentLoader :: loader

text \<open>
  The events of a resolution: a call of the document loader with \<^verbatim>\<open>url.href\<close>, a call of
  a class's parser, and the two error log records with their \<^verbatim>\<open>url\<close> and \<^verbatim>\<open>error\<close>
  properties.
\<close>

datatype resolve_event =
    Load string
  | FromJsonLd string json
  | LogFetchFailure string error
  | LogParseFailure string error

definition is_TypeError :: "error \<Rightarrow> bool" where
  "is_TypeError e = (case e of TypeError _ \<Rightarrow> True | _ \<Rightarrow> False)"

text \<open>\<^verbatim>\<open>options.documentLoader ?? this._documentLoader ?? getDocumentLoader()\<close>.\<close>

definition pick_loader :: "loader option \<Rightarrow> loader option \<Rightarrow> loader \<Rightarrow> loader" where
  "pick_loader from_options from_this fallback =
     (case from_options of
        Some l \<Rightarrow> l
      | None \<Rightarrow> (case from_this of Some l \<Rightarrow> l | None \<Rightarrow> fallback))"

subsection \<open>The parser of a property: lines 123-155\<close>

text \<open>
  One \<^verbatim>\<open>try\<close> block is emitted per entry of the range that is a key of \<open>types\<close>, in the
  order of the range; after them comes the \<^verbatim>\<open>throw\<close> of a \<^verbatim>\<open>TypeError\<close> whose message
  joins the whole range.
\<close>

fun try_candidates ::
  "(string \<rightharpoonup> TypeSchema) \<Rightarrow> 'o vocab \<Rightarrow> loader \<Rightarrow> loader \<Rightarrow> string list \<Rightarrow> string list \<Rightarrow>
   json \<Rightarrow> ('o, resolve_event) io"
where
  "try_candidates types vocab dl cl whole [] jsonLd =
     io_throw (TypeError (''Expected an object of any type of: '' @ join '', '' whole))"
| "try_candidates types vocab dl cl whole (r # rs) jsonLd =
     (case types r of
        None \<Rightarrow> try_candidates types vocab dl cl whole rs jsonLd
      | Some rangeType \<Rightarrow>
          io_try (io_call (FromJsonLd (type_name rangeType) jsonLd)
                    (fromJsonLd vocab (type_name rangeType) jsonLd dl cl))
            io_return
            (\<lambda>e. if \<not> is_TypeError e then io_throw e
                 else try_candidates types vocab dl cl whole rs jsonLd))"

definition prop_fromJsonLd ::
  "(string \<rightharpoonup> TypeSchema) \<Rightarrow> PropertySchema \<Rightarrow> 'o vocab \<Rightarrow> 'o self \<Rightarrow> options \<Rightarrow> json \<Rightarrow>
   ('o, resolve_event) io"
where
  "prop_fromJsonLd types property vocab this opts jsonLd =
     (let dl = pick_loader (options_documentLoader opts) (this_documentLoader this)
                             (getDocumentLoader vocab);
          cl = pick_loader (options_contextLoader opts) (this_contextLoader this)
                            (getDocumentLoader vocab)
      in try_candidates types vocab dl cl
           (property_range property) (property_range property) jsonLd)"

subsection \<open>Fetching a reference: lines 53-121\<close>

definition prop_fetch ::
  "(string \<rightharpoonup> TypeSchema) \<Rightarrow> PropertySchema \<Rightarrow> 'o vocab \<Rightarrow> 'o self \<Rightarrow> options \<Rightarrow> url \<Rightarrow>
   ('o option, resolve_event) io"
where
  "prop_fetch types property vocab this opts u =
     (let dl = pick_loader (options_documentLoader opts) (this_documentLoader this)
                             (getDocumentLoader vocab);
          cl = pick_loader (options_contextLoader opts) (this_contextLoader this)
                            (getDocumentLoader vocab)
      in io_try (io_call (Load (href u)) (dl (href u)))
           (\<lambda>document.
              io_try (prop_fromJsonLd types property vocab this
                        (opts\<lparr>options_documentLoader := Some dl,
                              options_contextLoader := Some cl\<rparr>)
                        document)
                (\<lambda>obj. io_return (Some obj))
                (\<lambda>e. if suppressError opts = Some True
                     then io_bind (io_emit (LogParseFailure (href u) e)) (\<lambda>_. io_return None)
                     else io_throw e))
           (\<lambda>e. if suppressError opts = Some True
                then io_bind (io_emit (LogFetchFailure (href u) e)) (\<lambda>_. io_return None)
                else io_throw e))"

subsection \<open>The identity accessors: lines 165-170 and 221-225\<close>

definition get_Id :: "('m fobject_scheme) self \<Rightarrow> url option" where
  "get_Id this =
     (if length (field this) < 1 then None
      else (case field this ! 0 of
              Reference u \<Rightarrow> Some u
            | Inline obj \<Rightarrow> object_id obj))"

text \<open>
  \<^verbatim>\<open>this.field.map((v) => v instanceof URL ? v : v.id!).filter(id => id !== null)\<close>: the
  list of the identities that are not null.
\<close>

definition get_Ids :: "('m fobject_scheme) self \<Rightarrow> url list" where
  "get_Ids this =
     List.map_filter (\<lambda>id. id)
       (map (\<lambda>v. case v of Reference u \<Rightarrow> Some u | Inline obj \<Rightarrow> object_id obj) (field this))"

subsection \<open>The resolving accessors: lines 174-211 and 229-271\<close>

text \<open>
  \<^verbatim>\<open>getX\<close> returns its outcome and trace, and the instance as it leaves it.
\<close>

definition getX ::
  "(string \<rightharpoonup> TypeSchema) \<Rightarrow> PropertySchema \<Rightarrow> 'o vocab \<Rightarrow> options \<Rightarrow> 'o self \<Rightarrow>
   ('o option, resolve_event) io \<times> 'o self"
where
  "getX types property vocab opts this =
     (if length (field this) < 1 then (io_return None, this)
      else
        (case field this ! 0 of
           Reference u \<Rightarrow>
             (case prop_fetch types property vocab this opts u of
                (Inl e, t) \<Rightarrow> ((Inl e, t), this)
              | (Inr None, t) \<Rightarrow> ((Inr None, t), this)
              | (Inr (Some fetched), t) \<Rightarrow>
                  ((Inr (Some fetched), t), this\<lparr>field := (field this)[0 := Inline fetched]\<rparr>))
         | Inline v \<Rightarrow>
             (case cached_fragment (compactName property) (cachedJsonLd this) 0 of
                Some obj \<Rightarrow>
                  (io_bind (prop_fromJsonLd types property vocab this opts obj)
                     (\<lambda>parsed. io_return (Some parsed)),
                   this)
              | None \<Rightarrow> (io_return (Some v), this))))"

text \<open>
  \<^verbatim>\<open>getXs\<close> is a generator.  Run to its end it gives the values it yielded, the error that
  ended it (if one did), its trace and the slots as it leaves them.  \<open>yield_then\<close> puts the
  yields and the trace of one iteration before those of the iterations after it.
\<close>

type_synonym 'o drained = "'o list \<times> error option \<times> resolve_event list \<times> 'o slot list"

definition yield_then :: "'o list \<Rightarrow> resolve_event list \<Rightarrow> 'o drained \<Rightarrow> 'o drained" where
  "yield_then ys t rest = (case rest of (ys', e, t', vs) \<Rightarrow> (ys @ ys', e, t @ t', vs))"

function getXs_loop ::
  "(string \<rightharpoonup> TypeSchema) \<Rightarrow> PropertySchema \<Rightarrow> 'o vocab \<Rightarrow> options \<Rightarrow> 'o self \<Rightarrow>
   nat \<Rightarrow> 'o slot list \<Rightarrow> 'o drained"
where
  "getXs_loop types property vocab opts this i vs =
     (if i < length vs
      then
        (case vs ! i of
           Reference u \<Rightarrow>
             (case prop_fetch types property vocab this opts u of
                (Inl e, t) \<Rightarrow> ([], Some e, t, vs)
              | (Inr None, t) \<Rightarrow>
                  yield_then [] t (getXs_loop types property vocab opts this (Suc i) vs)
              | (Inr (Some fetched), t) \<Rightarrow>
                  yield_then [fetched] t
                    (getXs_loop types property vocab opts this (Suc i) (vs[i := Inline fetched])))
         | Inline v \<Rightarrow>
             (case cached_fragment (compactName property) (cachedJsonLd this) i of
                Some obj \<Rightarrow>
                  (case prop_fromJsonLd types property vocab this opts obj of
                     (Inl e, t) \<Rightarrow> ([], Some e, t, vs)
                   | (Inr parsed, t) \<Rightarrow>
                       yield_then [parsed] t
                         (getXs_loop types property vocab opts this (Suc i) vs))
              | None \<Rightarrow>
                  yield_then [v] [] (getXs_loop types property vocab opts this (Suc i) vs)))
      else ([], None, [], vs))"
  by pat_completeness auto
termination
  by (relation "measure (\<lambda>(types, property, vocab, opts, this, i, vs). length vs - i)") auto

declare getXs_loop.simps [simp del]

definition getXs ::
  "(string \<rightharpoonup> TypeSchema) \<Rightarrow> PropertySchema \<Rightarrow> 'o vocab \<Rightarrow> options \<Rightarrow> 'o self \<Rightarrow>
   ('o list \<times> error option \<times> resolve_event list) \<times> 'o self"
where
  "getXs types property vocab opts this =
     (case getXs_loop types property vocab opts this 0 (field this) of
        (ys, e, t, vs) \<Rightarrow> ((ys, e, t), this\<lparr>field := vs\<rparr>))"

subsection \<open>The order of the candidates, from the specification\<close>

text \<open>
  Written from the words of the specification (section 4.5, step 3), to be compared with
  \<open>prop_fromJsonLd\<close>: the candidate types are tried in declared order; a type mismatch means
  the next candidate is tried; any other failure, or a success, ends the attempts;
  exhausting the candidates is a type mismatch naming the declared types.  \<open>attempted\<close> are
  the classes of the range that have a parser, \<open>mismatch\<close> says that a class's parser
  reports a type mismatch on the document.
\<close>

definition attempted :: "(string \<rightharpoonup> TypeSchema) \<Rightarrow> string list \<Rightarrow> string list" where
  "attempted types rs = List.map_filter (\<lambda>r. map_option type_name (types r)) rs"

definition mismatch :: "'o vocab \<Rightarrow> loader \<Rightarrow> loader \<Rightarrow> json \<Rightarrow> string \<Rightarrow> bool" where
  "mismatch vocab dl cl jsonLd name =
     (case fromJsonLd vocab name jsonLd dl cl of Inl e \<Rightarrow> is_TypeError e | Inr obj \<Rightarrow> False)"

definition exhausted_message :: "string list \<Rightarrow> string" where
  "exhausted_message rs = ''Expected an object of any type of: '' @ join '', '' rs"

definition candidates_in_order ::
  "'o vocab \<Rightarrow> loader \<Rightarrow> loader \<Rightarrow> string list \<Rightarrow> string list \<Rightarrow> json \<Rightarrow> ('o, resolve_event) io"
where
  "candidates_in_order vocab dl cl declared names jsonLd =
     (case dropWhile (mismatch vocab dl cl jsonLd) names of
        [] \<Rightarrow> (Inl (TypeError (exhausted_message declared)),
               map (\<lambda>n. FromJsonLd n jsonLd) names)
      | n # rest \<Rightarrow>
          (fromJsonLd vocab n jsonLd dl cl,
           map (\<lambda>n. FromJsonLd n jsonLd)
             (takeWhile (mismatch vocab dl cl jsonLd) names @ [n])))"

subsection \<open>Observations of a resolution\<close>

text \<open>The URLs the document loader was called with, in order.\<close>

definition loads :: "resolve_event list \<Rightarrow> string list" where
  "loads t = List.map_filter (\<lambda>ev. case ev of Load u \<Rightarrow> Some u | _ \<Rightarrow> None) t"

text \<open>
  What the resolution of the reference \<open>u\<close> produces: the object, or nothing when it failed.
\<close>

definition resolved ::
  "(string \<rightharpoonup> TypeSchema) \<Rightarrow> PropertySchema \<Rightarrow> 'o vocab \<Rightarrow> 'o self \<Rightarrow> options \<Rightarrow> url \<Rightarrow> 'o option"
where
  "resolved types property vocab this opts u =
     (case fst (prop_fetch types property vocab this opts u) of
        Inl e \<Rightarrow> None
      | Inr r \<Rightarrow> r)"

text \<open>The slot of the reference \<open>u\<close> after its resolution.\<close>

definition memoized ::
  "(string \<rightharpoonup> TypeSchema) \<Rightarrow> PropertySchema \<Rightarrow> 'o vocab \<Rightarrow> 'o self \<Rightarrow> options \<Rightarrow> url \<Rightarrow> 'o slot"
where
  "memoized types property vocab this opts u =
     (case resolved types property vocab this opts u of
        None \<Rightarrow> Reference u
      | Some obj \<Rightarrow> Inline obj)"

subsection \<open>The plural accessor, from the specification\<close>

text \<open>
  Written from the words of the specification (section 4.5), to be compared with \<open>getXs\<close>.
  The resolution of one slot is atomic.  \<open>slot_outcome\<close> is what the slot at position \<open>i\<close>
  produces and what it holds afterwards: a Reference that resolves is replaced by the
  resolved Inline object, which is produced; a Reference whose failure is suppressed is left
  as it is and produces nothing; an Inline slot is left as it is and produces the object
  parsed from the inline sub-document of the retained source at its position when there is
  one, and the object it holds otherwise; a failure that is not suppressed is raised.
  \<open>resolve_slots\<close> visits the slots in their original order, from position \<open>i\<close> on: it
  collects what the slots produce and what they hold afterwards, and a raised failure ends
  the sequence, the slot that raised and the slots after it untouched.
\<close>

definition slot_outcome ::
  "(string \<rightharpoonup> TypeSchema) \<Rightarrow> PropertySchema \<Rightarrow> 'o vocab \<Rightarrow> options \<Rightarrow> 'o self \<Rightarrow>
   nat \<Rightarrow> 'o slot \<Rightarrow> ('o option \<times> 'o slot, resolve_event) io"
where
  "slot_outcome types property vocab opts this i v =
     (case v of
        Reference u \<Rightarrow>
          io_bind (prop_fetch types property vocab this opts u)
            (\<lambda>r. io_return (case r of
                               None \<Rightarrow> (None, Reference u)
                             | Some obj \<Rightarrow> (Some obj, Inline obj)))
      | Inline held \<Rightarrow>
          (case cached_fragment (compactName property) (cachedJsonLd this) i of
             None \<Rightarrow> io_return (Some held, Inline held)
           | Some fragment \<Rightarrow>
               io_bind (prop_fromJsonLd types property vocab this opts fragment)
                 (\<lambda>parsed. io_return (Some parsed, Inline held))))"

fun resolve_slots ::
  "(string \<rightharpoonup> TypeSchema) \<Rightarrow> PropertySchema \<Rightarrow> 'o vocab \<Rightarrow> options \<Rightarrow> 'o self \<Rightarrow>
   nat \<Rightarrow> 'o slot list \<Rightarrow> 'o drained"
where
  "resolve_slots types property vocab opts this i [] = ([], None, [], [])"
| "resolve_slots types property vocab opts this i (v # vs) =
     (case slot_outcome types property vocab opts this i v of
        (Inl e, t) \<Rightarrow> ([], Some e, t, v # vs)
      | (Inr (produced, v'), t) \<Rightarrow>
          (case resolve_slots types property vocab opts this (Suc i) vs of
             (ys, e, t', vs') \<Rightarrow>
               ((case produced of None \<Rightarrow> [] | Some obj \<Rightarrow> [obj]) @ ys, e, t @ t', v' # vs')))"

subsection \<open>A concrete vocabulary\<close>

text \<open>
  Two classes, \<^verbatim>\<open>Person\<close> and \<^verbatim>\<open>Note\<close>, and a property whose range names them around a
  scalar type that has no class.  A class parses an object whose \<^verbatim>\<open>type\<close> member is its
  name, reports a type mismatch on any other object, and fails otherwise on a document that
  is not an object.  The loader knows two documents.
\<close>

record typed_object = fobject +
  class_name :: string

definition ex_types :: "string \<rightharpoonup> TypeSchema" where
  "ex_types = [''as:Person'' \<mapsto> \<lparr>type_name = ''Person''\<rparr>, ''as:Note'' \<mapsto> \<lparr>type_name = ''Note''\<rparr>]"

definition ex_property :: PropertySchema where
  "ex_property =
     \<lparr>property_range = [''as:Person'', ''xsd:string'', ''as:Note''],
      compactName = Some ''actor''\<rparr>"

definition ex_parse :: "string \<Rightarrow> json \<Rightarrow> loader \<Rightarrow> loader \<Rightarrow> error + typed_object" where
  "ex_parse name doc dl cl =
     (case doc of
        JObject members \<Rightarrow>
          if map_of members ''type'' = Some (JString name)
          then Inr \<lparr>object_id =
                      (case map_of members ''id'' of
                         Some (JString i) \<Rightarrow> Some \<lparr>href = i, origin = ''a'', username = '''', password = ''''\<rparr>
                       | _ \<Rightarrow> None),
                    class_name = name\<rparr>
          else Inl (TypeError ''Invalid type'')
      | _ \<Rightarrow> Inl (Thrown ''not an object''))"

definition ex_doc :: "string \<Rightarrow> string \<Rightarrow> json" where
  "ex_doc t i = JObject [(''@context'', JString ''as''), (''type'', JString t), (''id'', JString i)]"

definition ex_loader :: loader where
  "ex_loader u =
     (case map_of [(''a/1'', ex_doc ''Note'' ''a/1''), (''a/3'', ex_doc ''Person'' ''a/3'')] u of
        Some doc \<Rightarrow> Inr doc
      | None \<Rightarrow> Inl (Thrown ''not found''))"

definition ex_vocab :: "typed_object vocab" where
  "ex_vocab = \<lparr>fromJsonLd = ex_parse, getDocumentLoader = ex_loader\<rparr>"

definition ex_object :: "string \<Rightarrow> string \<Rightarrow> typed_object" where
  "ex_object t i = \<lparr>object_id = Some \<lparr>href = i, origin = ''a'', username = '''', password = ''''\<rparr>, class_name = t\<rparr>"

definition ex_ref :: "string \<Rightarrow> url" where
  "ex_ref i = \<lparr>href = i, origin = ''a'', username = '''', password = ''''\<rparr>"

definition ex_this :: "typed_object slot list \<Rightarrow> json option \<Rightarrow> typed_object self" where
  "ex_this vs cached =
     \<lparr>field = vs, cachedJsonLd = cached, this_documentLoader = None, this_contextLoader = None\<rparr>"

definition ex_options :: "bool option \<Rightarrow> options" where
  "ex_options suppress =
     \<lparr>options_documentLoader = None, options_contextLoader = None, suppressError = suppress\<rparr>"

text \<open>
  The compacted source document of a parent whose \<^verbatim>\<open>actor\<close> member is an inline
  sub-document with a context of its own.
\<close>

definition ex_cached :: json where
  "ex_cached =
     JObject [(''@context'', JString ''as''), (''actor'', ex_doc ''Person'' ''a/7'')]"

section \<open>Properties of the effects\<close>

subsection \<open>Sequencing\<close>

lemmas io_defs =
  io_bind_def io_try_def io_return_def io_throw_def io_call_def io_emit_def io_result_def

lemma io_bind_return [simp]: "io_bind (io_return x) f = f x"
  by (simp add: io_defs split: prod.splits)

lemma io_bind_throw [simp]: "io_bind (io_throw e) f = io_throw e"
  by (simp add: io_defs)

lemma io_bind_assoc: "io_bind (io_bind m f) g = io_bind m (\<lambda>x. io_bind (f x) g)"
  by (simp add: io_defs split: prod.splits sum.splits)

lemma io_bind_Inl: "fst m = Inl e \<Longrightarrow> io_bind m f = (Inl e, snd m)"
  by (cases m) (simp add: io_defs)

lemma io_bind_Inr: "fst m = Inr x \<Longrightarrow> io_bind m f = (fst (f x), snd m @ snd (f x))"
  by (cases m) (simp add: io_defs split: prod.splits)

section \<open>Properties of extractInboxes\<close>


lemma chosen_inbox_spec:
  "chosen_inbox prefer r = spec_chosen_inbox (prefer = Some True) r"
  by (simp add: chosen_inbox_def spec_chosen_inbox_def spec_shared_inbox_def
      split: option.splits)

lemma origin_excluded_spec:
  "origin_excluded excl ibx =
     (origin ibx \<in> origin ` set (case excl of None \<Rightarrow> [] | Some us \<Rightarrow> us))"
proof (cases excl)
  case None
  then show ?thesis by (simp add: origin_excluded_def)
next
  case (Some us)
  have "(\<exists>u\<in>set us. origin u = origin ibx) = (origin ibx \<in> origin ` set us)"
    by (metis image_iff)
  with Some show ?thesis by (simp add: origin_excluded_def list_ex_iff)
qed

lemma extract_step_spec:
  "extract_step prefer excl m r =
     (case spec_target (prefer = Some True) (case excl of None \<Rightarrow> [] | Some us \<Rightarrow> us) r of
        None \<Rightarrow> m
      | Some (k, v) \<Rightarrow> m(k \<mapsto> insert v (case m k of None \<Rightarrow> {} | Some s \<Rightarrow> s)))"
  by (simp add: extract_step_def spec_target_def chosen_inbox_spec origin_excluded_spec
      split: option.splits)

lemma ids_at_Nil: "ids_at [] k = {}"
  by (simp add: ids_at_def)

lemma ids_at_Cons:
  "ids_at ((k', v) # ts) k = (if k' = k then insert v (ids_at ts k) else ids_at ts k)"
  by (simp add: ids_at_def)

text \<open>
  The loop started from any accumulated map \<open>m\<close>: at every key it adds exactly the identities
  the reference definition collects for that key from the remaining recipients.
\<close>

lemma extract_loop_spec:
  "extract_loop prefer excl m rs k =
     (let ids = ids_at (List.map_filter
                  (spec_target (prefer = Some True) (case excl of None \<Rightarrow> [] | Some us \<Rightarrow> us)) rs) k
      in case m k of
           None \<Rightarrow> if ids = {} then None else Some ids
         | Some s \<Rightarrow> Some (s \<union> ids))"
proof (induction rs arbitrary: m)
  case Nil
  show ?case by (simp add: ids_at_Nil split: option.splits)
next
  case (Cons r rs)
  let ?tgt = "spec_target (prefer = Some True) (case excl of None \<Rightarrow> [] | Some us \<Rightarrow> us)"
  show ?case
  proof (cases "?tgt r")
    case None
    then show ?thesis
      by (simp add: Cons.IH extract_step_spec)
  next
    case (Some kv)
    obtain k' v where kv: "kv = (k', v)" by (cases kv)
    show ?thesis
      using Some kv
      by (cases "m k") (auto simp: Cons.IH extract_step_spec ids_at_Cons Let_def)
  qed
qed

text \<open>
  Claim C4.  \<open>extractInboxes\<close> equals its reference definition: for each recipient the chosen
  inbox is the shared inbox when \<^verbatim>\<open>preferSharedInbox\<close> is set and one is present, otherwise
  the personal inbox; recipients lacking an inbox or an identity are skipped; recipients whose
  chosen inbox's origin equals the origin of any exclusion URL are skipped; every remaining
  recipient's identity URL is added to the set keyed by the inbox's exact URL string.
  Identical inbox URLs therefore merge into one entry, and two inboxes with the same origin
  but different exact URLs remain separate keys.
\<close>

theorem extractInboxes_refines_spec: "extractInboxes ps = extractInboxes_spec ps"
  by (rule ext) (simp add: extractInboxes_def extractInboxes_spec_def spec_targets_def
      extract_loop_spec ids_at_def Let_def)

text \<open>
  The theorem at a concrete input.  Recipients 1 and 2 have personal inboxes of the same
  origin but different exact URLs (two keys); recipient 3 shares recipient 2's inbox (one
  entry, both identities); recipient 4's inbox has an excluded origin; recipient 5 has no
  identity.
\<close>

theorem extractInboxes_refines_spec_witness:
  "extractInboxes (ex_params None) = extractInboxes_spec (ex_params None)
   \<and> extractInboxes_spec (ex_params None)
       = [''a/u1/in'' \<mapsto> {''a/u1''}, ''a/u2/in'' \<mapsto> {''c/u3'', ''a/u2''}]
   \<and> extractInboxes_spec (ex_params (Some True))
       = [''a/in'' \<mapsto> {''a/u1''}, ''a/u2/in'' \<mapsto> {''c/u3'', ''a/u2''}]"
  using extractInboxes_refines_spec [of "ex_params None"]
    extractInboxes_refines_spec [of "ex_params (Some True)", symmetric]
  by (simp add: extractInboxes_def ex_params_def ex_recipients_def extract_step_def
      chosen_inbox_def origin_excluded_def)

section \<open>Properties of sendActivity\<close>

lemma is_validation_simps [simp]:
  "is_validation (ValidateCryptoKey k p)"
  "\<not> is_validation (SignObject a k u)"
  "\<not> is_validation (ToJsonLd a)"
  "\<not> is_validation (SignJsonLd doc k u)"
  "\<not> is_validation (SignRequest r k u)"
  "\<not> is_validation (Fetch r)"
  "\<not> is_validation ResponseText"
  "\<not> is_validation (LogWarn msg subject lks)"
  "\<not> is_validation (LogError msg aid ihref st stt er)"
  by (simp_all add: is_validation_def)

lemma without_validation_bind:
  "without_validation (io_bind m f) =
     io_bind (without_validation m) (\<lambda>x. without_validation (f x))"
  by (simp add: without_validation_def io_defs split: prod.splits sum.splits)

lemma without_validation_return [simp]: "without_validation (io_return x) = io_return x"
  by (simp add: without_validation_def io_defs)

lemma without_validation_throw [simp]: "without_validation (io_throw x) = io_throw x"
  by (simp add: without_validation_def io_defs)

lemma without_validation_validate [simp]:
  "without_validation (io_call (ValidateCryptoKey k p) (Inr x)) = io_return x"
  by (simp add: without_validation_def io_defs is_validation_def)

lemma without_validation_call [simp]:
  "\<not> is_validation ev \<Longrightarrow> without_validation (io_call ev r) = io_call ev r"
  by (simp add: without_validation_def io_defs)

lemma without_validation_emit [simp]:
  "\<not> is_validation ev \<Longrightarrow> without_validation (io_emit ev) = io_emit ev"
  by (simp add: without_validation_def io_defs)

lemma without_validation_result [simp]: "without_validation (io_result r) = io_result r"
  by (simp add: without_validation_def io_defs)

lemma without_validation_rejected [simp]:
  "without_validation (io_call (ValidateCryptoKey k p) (Inl e)) = io_throw e"
  by (simp add: without_validation_def io_defs is_validation_def)

lemma without_validation_handle_response [simp]:
  "without_validation (handle_response a i r) = handle_response a i r"
  by (simp add: handle_response_def without_validation_def io_defs split: sum.splits)

lemma io_bind_call_Inl [simp]: "io_bind (io_call ev (Inl e)) f = io_call ev (Inl e)"
  by (simp add: io_defs)

subsection \<open>The loop over the keys\<close>

text \<open>
  When every key validates, the loop is, up to its validation events, the attachment of one
  proof per Ed25519 key; it ends with \<^verbatim>\<open>proofCreated\<close> set when there was such a key and
  with the first RSA key as \<^verbatim>\<open>rsaKey\<close>.
\<close>

lemma sign_keys_layers:
  "\<forall>k\<in>set ks. validateCryptoKey env (privateKey k) ''private'' = Inr () \<Longrightarrow>
   without_validation (sign_keys env dl cl ks (act, pc, rk)) =
     io_bind (attach_proofs env dl cl act (filter is_Ed25519 ks))
       (\<lambda>act'. io_return (act', pc \<or> filter is_Ed25519 ks \<noteq> [],
                  (case rk of None \<Rightarrow> find is_RSA ks | Some k \<Rightarrow> Some k)))"
proof (induction ks arbitrary: act pc rk)
  case Nil
  show ?case by (cases rk) simp_all
next
  case (Cons k ks)
  have v: "validateCryptoKey env (privateKey k) ''private'' = Inr ()"
    using Cons.prems by simp
  have rest: "\<forall>k\<in>set ks. validateCryptoKey env (privateKey k) ''private'' = Inr ()"
    using Cons.prems by simp
  note IH = Cons.IH [OF rest]
  show ?case
  proof (cases "algorithm_name (privateKey k) = ''Ed25519''")
    case True
    then show ?thesis
      by (cases rk)
        (simp_all add: v without_validation_bind IH is_Ed25519_def is_RSA_def io_bind_assoc)
  next
    case False
    then show ?thesis
      by (cases rk) (simp_all add: v without_validation_bind IH is_Ed25519_def is_RSA_def)
  qed
qed

text \<open>The loop over a list of keys is the loop over its front followed by the loop over its back.\<close>

lemma sign_keys_append:
  "sign_keys env dl cl (xs @ ys) st =
     io_bind (sign_keys env dl cl xs st) (sign_keys env dl cl ys)"
proof (induction xs arbitrary: st)
  case Nil
  show ?case by simp
next
  case (Cons k ks)
  obtain act pc rk where st: "st = (act, pc, rk)" by (cases st)
  show ?case
    unfolding st by (simp add: Cons.IH io_bind_assoc)
qed

text \<open>
  A key that does not validate ends the loop with the validator's error, after the proofs of
  the Ed25519 keys before it.
\<close>

lemma sign_keys_rejected:
  assumes "\<forall>k'\<in>set accepted. validateCryptoKey env (privateKey k') ''private'' = Inr ()"
    and "validateCryptoKey env (privateKey k) ''private'' = Inl e"
  shows "without_validation (sign_keys env dl cl (accepted @ k # rest) (act, pc, rk)) =
           io_bind (attach_proofs env dl cl act (filter is_Ed25519 accepted)) (\<lambda>_. io_throw e)"
  unfolding sign_keys_append without_validation_bind sign_keys_layers [OF assms(1)]
  by (simp add: io_bind_assoc assms(2))

lemma sendActivity_split:
  assumes "activity_id (activity ps) = Some aid"
    and "actorId (activity ps) \<noteq> None"
    and "keys ps \<noteq> []"
  shows "sendActivity env ps =
           io_bind (sign_keys env (documentLoader ps) (contextLoader ps) (keys ps)
                      (activity ps, False, None))
             (\<lambda>(act, proofCreated, rsaKey). send_rest env ps (href aid) act proofCreated rsaKey)"
proof -
  have len: "\<not> length (keys ps) < 1" using assms(3) by (cases "keys ps") simp_all
  obtain actor where actor: "actorId (activity ps) = Some actor"
    using assms(2) by blast
  show ?thesis
    using assms(1) actor len by (simp add: sendActivity_def send_rest_def Let_def)
qed

lemma sendActivity_all_valid:
  assumes "activity_id (activity ps) = Some aid"
    and "actorId (activity ps) \<noteq> None"
    and "keys ps \<noteq> []"
    and "\<forall>k\<in>set (keys ps). validateCryptoKey env (privateKey k) ''private'' = Inr ()"
  shows "without_validation (sendActivity env ps) =
           layered_send env ps (href aid) (filter is_Ed25519 (keys ps)) (find is_RSA (keys ps))"
  unfolding sendActivity_split [OF assms(1,2,3)] without_validation_bind
    sign_keys_layers [OF assms(4)]
  by (cases "find is_RSA (keys ps)"; cases "filter is_Ed25519 (keys ps) = []")
    (simp_all add: layered_send_def send_rest_def without_validation_bind io_bind_assoc Let_def)

lemma sendActivity_rejected:
  assumes "activity_id (activity ps) = Some aid"
    and "actorId (activity ps) \<noteq> None"
    and "keys ps = accepted @ k # rest"
    and "\<forall>k'\<in>set accepted. validateCryptoKey env (privateKey k') ''private'' = Inr ()"
    and "validateCryptoKey env (privateKey k) ''private'' = Inl e"
  shows "without_validation (sendActivity env ps) =
           io_bind (attach_proofs env (documentLoader ps) (contextLoader ps) (activity ps)
                      (filter is_Ed25519 accepted))
             (\<lambda>_. io_throw e)"
proof -
  have ks: "keys ps \<noteq> []" using assms(3) by simp
  show ?thesis
    unfolding sendActivity_split [OF assms(1,2) ks] without_validation_bind
    unfolding assms(3) sign_keys_rejected [OF assms(4,5)]
    by (simp add: io_bind_assoc)
qed

subsection \<open>The signing layers\<close>

text \<open>
  Claim C1, as amended.  \<open>sendActivity\<close> layers signatures in strict order, and a key counts
  for nothing else once it has passed validation.  For an activity that passes the
  preconditions:
  \<^item> when every key of the list validates, the send is, apart from the validation calls,
    exactly the layered pipeline run on the Ed25519 keys of the list (in input order) and on
    the first RSA key of the list: one Integrity Proof per Ed25519 key is attached before
    serialization; the first RSA key, when present, keys the Linked-Data Signature over the
    compacted proof-bearing document and the request signature; later RSA keys and keys of
    other algorithms do not occur in the pipeline; and when there is no RSA key or no
    Ed25519 key the pipeline logs a warning and goes on with the artifact unsigned at that
    layer;
  \<^item> when a key of the list does not validate, whatever its algorithm, the send is, apart
    from the validation calls, the attachment of the proofs of the Ed25519 keys before the
    first such key, followed by the throw of the validator's error: nothing is serialized
    and nothing is sent.
\<close>

theorem sendActivity_layers:
  assumes "activity_id (activity ps) = Some aid"
    and "actorId (activity ps) \<noteq> None"
    and "keys ps \<noteq> []"
  shows "((\<forall>k\<in>set (keys ps). validateCryptoKey env (privateKey k) ''private'' = Inr ()) \<longrightarrow>
            without_validation (sendActivity env ps) =
              layered_send env ps (href aid)
                (filter is_Ed25519 (keys ps)) (find is_RSA (keys ps)))
       \<and> (\<forall>accepted k rest e.
            keys ps = accepted @ k # rest \<longrightarrow>
            (\<forall>k'\<in>set accepted. validateCryptoKey env (privateKey k') ''private'' = Inr ()) \<longrightarrow>
            validateCryptoKey env (privateKey k) ''private'' = Inl e \<longrightarrow>
            without_validation (sendActivity env ps) =
              io_bind (attach_proofs env (documentLoader ps) (contextLoader ps) (activity ps)
                         (filter is_Ed25519 accepted))
                (\<lambda>_. io_throw e))"
  using sendActivity_all_valid [OF assms] sendActivity_rejected [OF assms(1,2)]
  by blast

lemmas ex_send_defs =
  ex_env_def ex_send_def ex_activity_def ex_keys_def ex_key_def ex_validate_def ex_accepted_def
  ex_proved_def ex_request_def Let_def
  Headers_get_def same_header_name_def lower_char_def new_Headers_def
  new_Request_def includes_credentials_def

text \<open>
  Four sends.  With two Ed25519 keys, two RSA keys and an ECDSA key that the validator
  accepts, the document carries both proofs and is signed by the first RSA key \<open>k2\<close> only,
  as is the request: neither the second RSA key nor the ECDSA key shows.  With a single
  Ed25519 key, the document carries one proof, two warnings are logged and the send succeeds
  unsigned at the document and transport layers.  With a public key between two Ed25519
  keys, the first proof is attached and the send fails with the validator's error.  With an
  inbox URL that holds credentials, the document is proved and signed, the construction of
  the request throws, and nothing is signed at the transport layer or sent.
\<close>

theorem sendActivity_layers_witness:
  "without_validation
     (sendActivity (ex_env_ecdsa ex_accepted)
        (ex_send ex_activity
           [ex_key ''Ed25519'' ''k1'', ex_key ''RSASSA-PKCS1-v1_5'' ''k2'',
            ex_key ''RSASSA-PKCS1-v1_5'' ''k3'', ex_key ''ECDSA'' ''k5'',
            ex_key ''Ed25519'' ''k4''] None)) =
     (Inr (),
      [SignObject (ex_proved []) (privateKey (ex_key ''Ed25519'' ''k1''))
         \<lparr>href = ''k1'', origin = ''a'', username = '''', password = ''''\<rparr>,
       SignObject (ex_proved [''k1'']) (privateKey (ex_key ''Ed25519'' ''k4''))
         \<lparr>href = ''k4'', origin = ''a'', username = '''', password = ''''\<rparr>,
       ToJsonLd (ex_proved [''k1'', ''k4'']),
       SignJsonLd ''doc:k1,k4'' (privateKey (ex_key ''RSASSA-PKCS1-v1_5'' ''k2''))
         \<lparr>href = ''k2'', origin = ''a'', username = '''', password = ''''\<rparr>,
       SignRequest
         (ex_request [(''Content-Type'', ''application/activity+json'')] ''doc:k1,k4;ld=k2'')
         (privateKey (ex_key ''RSASSA-PKCS1-v1_5'' ''k2''))
         \<lparr>href = ''k2'', origin = ''a'', username = '''', password = ''''\<rparr>,
       Fetch
         (ex_request [(''Content-Type'', ''application/activity+json''), (''Signature'', ''k2'')]
            ''doc:k1,k4;ld=k2'')])
   \<and> without_validation
       (sendActivity (ex_env ex_accepted)
          (ex_send ex_activity [ex_key ''Ed25519'' ''k1''] None)) =
     (Inr (),
      [SignObject (ex_proved []) (privateKey (ex_key ''Ed25519'' ''k1''))
         \<lparr>href = ''k1'', origin = ''a'', username = '''', password = ''''\<rparr>,
       ToJsonLd (ex_proved [''k1'']),
       LogWarn no_ld_signature_warning ''a/1'' (log_keys [ex_key ''Ed25519'' ''k1'']),
       LogWarn no_request_signature_warning ''b/in'' (log_keys [ex_key ''Ed25519'' ''k1'']),
       Fetch (ex_request [(''Content-Type'', ''application/activity+json'')] ''doc:k1'')])
   \<and> without_validation
       (sendActivity (ex_env ex_accepted)
          (ex_send ex_activity
             [ex_key ''Ed25519'' ''k1'', ex_public_key, ex_key ''Ed25519'' ''k4''] None)) =
     (Inl (TypeError ''The key is not a private key.''),
      [SignObject (ex_proved []) (privateKey (ex_key ''Ed25519'' ''k1''))
         \<lparr>href = ''k1'', origin = ''a'', username = '''', password = ''''\<rparr>])
   \<and> without_validation
       (sendActivity (ex_env ex_accepted)
          ((ex_send ex_activity
              [ex_key ''Ed25519'' ''k1'', ex_key ''RSASSA-PKCS1-v1_5'' ''k2''] None)
           \<lparr>inbox := \<lparr>href = ''u:p@b/in'', origin = ''b'', username = ''u'',
                      password = ''p''\<rparr>\<rparr>)) =
     (Inl (TypeError
             ''Request cannot be constructed from a URL that includes credentials: u:p@b/in''),
      [SignObject (ex_proved []) (privateKey (ex_key ''Ed25519'' ''k1''))
         \<lparr>href = ''k1'', origin = ''a'', username = '''', password = ''''\<rparr>,
       ToJsonLd (ex_proved [''k1'']),
       SignJsonLd ''doc:k1'' (privateKey (ex_key ''RSASSA-PKCS1-v1_5'' ''k2''))
         \<lparr>href = ''k2'', origin = ''a'', username = '''', password = ''''\<rparr>])"
proof -
  let ?E = "ex_env ex_accepted"
  let ?L = "ex_env_ecdsa ex_accepted"
  let ?P = "ex_send ex_activity
              [ex_key ''Ed25519'' ''k1'', ex_key ''RSASSA-PKCS1-v1_5'' ''k2'',
               ex_key ''RSASSA-PKCS1-v1_5'' ''k3'', ex_key ''ECDSA'' ''k5'',
               ex_key ''Ed25519'' ''k4''] None"
  let ?Q = "ex_send ex_activity [ex_key ''Ed25519'' ''k1''] None"
  let ?R = "ex_send ex_activity
              [ex_key ''Ed25519'' ''k1'', ex_public_key, ex_key ''Ed25519'' ''k4''] None"
  let ?S = "(ex_send ex_activity
               [ex_key ''Ed25519'' ''k1'', ex_key ''RSASSA-PKCS1-v1_5'' ''k2''] None)
            \<lparr>inbox := \<lparr>href = ''u:p@b/in'', origin = ''b'', username = ''u'',
                       password = ''p''\<rparr>\<rparr>"
  let ?aid = "\<lparr>href = ''a/1'', origin = ''a'', username = '''', password = ''''\<rparr>"
  have p1: "activity_id (activity ?P) = Some ?aid" by (simp add: ex_send_defs)
  have p2: "actorId (activity ?P) \<noteq> None" by (simp add: ex_send_defs)
  have p3: "keys ?P \<noteq> []" by (simp add: ex_send_defs)
  have p4: "\<forall>k\<in>set (keys ?P). validateCryptoKey ?L (privateKey k) ''private'' = Inr ()"
    by (simp add: ex_send_defs ex_env_ecdsa_def)
  have q1: "activity_id (activity ?Q) = Some ?aid" by (simp add: ex_send_defs)
  have q2: "actorId (activity ?Q) \<noteq> None" by (simp add: ex_send_defs)
  have q3: "keys ?Q \<noteq> []" by (simp add: ex_send_defs)
  have q4: "\<forall>k\<in>set (keys ?Q). validateCryptoKey ?E (privateKey k) ''private'' = Inr ()"
    by (simp add: ex_send_defs)
  have r1: "activity_id (activity ?R) = Some ?aid" by (simp add: ex_send_defs)
  have r2: "actorId (activity ?R) \<noteq> None" by (simp add: ex_send_defs)
  have r3: "keys ?R \<noteq> []" by (simp add: ex_send_defs)
  have r4: "keys ?R = [ex_key ''Ed25519'' ''k1''] @ ex_public_key # [ex_key ''Ed25519'' ''k4'']"
    by (simp add: ex_send_defs)
  have r5: "\<forall>k'\<in>set [ex_key ''Ed25519'' ''k1''].
              validateCryptoKey ?E (privateKey k') ''private'' = Inr ()"
    by (simp add: ex_send_defs)
  have r6: "validateCryptoKey ?E (privateKey ex_public_key) ''private'' =
              Inl (TypeError ''The key is not a private key.'')"
    by (simp add: ex_send_defs ex_public_key_def)
  have s1: "activity_id (activity ?S) = Some ?aid" by (simp add: ex_send_defs)
  have s2: "actorId (activity ?S) \<noteq> None" by (simp add: ex_send_defs)
  have s3: "keys ?S \<noteq> []" by (simp add: ex_send_defs)
  have s4: "\<forall>k\<in>set (keys ?S). validateCryptoKey ?E (privateKey k) ''private'' = Inr ()"
    by (simp add: ex_send_defs)
  have P: "without_validation (sendActivity ?L ?P) =
             layered_send ?L ?P (href ?aid) (filter is_Ed25519 (keys ?P)) (find is_RSA (keys ?P))"
    using sendActivity_layers [OF p1 p2 p3, of ?L] p4 by blast
  have Q: "without_validation (sendActivity ?E ?Q) =
             layered_send ?E ?Q (href ?aid) (filter is_Ed25519 (keys ?Q)) (find is_RSA (keys ?Q))"
    using sendActivity_layers [OF q1 q2 q3, of ?E] q4 by blast
  have R: "without_validation (sendActivity ?E ?R) =
             io_bind (attach_proofs ?E (documentLoader ?R) (contextLoader ?R) (activity ?R)
                        (filter is_Ed25519 [ex_key ''Ed25519'' ''k1'']))
               (\<lambda>_. io_throw (TypeError ''The key is not a private key.''))"
    using sendActivity_layers [OF r1 r2 r3, of ?E] r4 r5 r6 by blast
  have S: "without_validation (sendActivity ?E ?S) =
             layered_send ?E ?S (href ?aid) (filter is_Ed25519 (keys ?S)) (find is_RSA (keys ?S))"
    using sendActivity_layers [OF s1 s2 s3, of ?E] s4 by blast
  show ?thesis
    unfolding P Q R S
    by (simp add: layered_send_def handle_response_def ok_def io_defs ex_send_defs
        ex_env_ecdsa_def is_Ed25519_def is_RSA_def log_keys_def)
qed

text \<open>
  Claim C1 as stated fails: a key of another algorithm can affect the output.  With the
  validator of the specification, an ECDSA key between an RSA key and an Ed25519 key is
  rejected as unsupported and the send stops there, before any signing; without that key the
  same send succeeds.
\<close>

theorem sendActivity_unsupported_key_aborts:
  "sendActivity (ex_env ex_accepted)
     (ex_send ex_activity
        [ex_key ''RSASSA-PKCS1-v1_5'' ''k2'', ex_key ''ECDSA'' ''k5'',
         ex_key ''Ed25519'' ''k1''] None) =
     (Inl (TypeError ''Unsupported algorithm.''),
      [ValidateCryptoKey (privateKey (ex_key ''RSASSA-PKCS1-v1_5'' ''k2'')) ''private'',
       ValidateCryptoKey (privateKey (ex_key ''ECDSA'' ''k5'')) ''private''])
   \<and> sendActivity (ex_env ex_accepted)
       (ex_send ex_activity
          [ex_key ''RSASSA-PKCS1-v1_5'' ''k2'', ex_key ''Ed25519'' ''k1''] None) =
     (Inr (),
      [ValidateCryptoKey (privateKey (ex_key ''RSASSA-PKCS1-v1_5'' ''k2'')) ''private'',
       ValidateCryptoKey (privateKey (ex_key ''Ed25519'' ''k1'')) ''private'',
       SignObject (ex_proved []) (privateKey (ex_key ''Ed25519'' ''k1''))
         \<lparr>href = ''k1'', origin = ''a'', username = '''', password = ''''\<rparr>,
       ToJsonLd (ex_proved [''k1'']),
       SignJsonLd ''doc:k1'' (privateKey (ex_key ''RSASSA-PKCS1-v1_5'' ''k2''))
         \<lparr>href = ''k2'', origin = ''a'', username = '''', password = ''''\<rparr>,
       SignRequest
         (ex_request [(''Content-Type'', ''application/activity+json'')] ''doc:k1;ld=k2'')
         (privateKey (ex_key ''RSASSA-PKCS1-v1_5'' ''k2''))
         \<lparr>href = ''k2'', origin = ''a'', username = '''', password = ''''\<rparr>,
       Fetch
         (ex_request [(''Content-Type'', ''application/activity+json''), (''Signature'', ''k2'')]
            ''doc:k1;ld=k2'')])"
  by (simp add: sendActivity_def handle_response_def ok_def io_defs ex_send_defs)

subsection \<open>The preconditions\<close>

text \<open>
  Claim C2.  \<open>sendActivity\<close> fails with a \<^verbatim>\<open>TypeError\<close> and an empty trace (no collaborator
  is called, so neither a loader nor the HTTP transport is invoked) whenever the activity's
  identity is null, or the activity has no actor attribution (\<^verbatim>\<open>actorId\<close> is null), or the
  key list is empty.
\<close>

theorem sendActivity_validation_failure:
  assumes "activity_id (activity ps) = None \<or> actorId (activity ps) = None \<or> keys ps = []"
  shows "\<exists>msg. sendActivity env ps = (Inl (TypeError msg), [])"
  using assms by (auto simp: sendActivity_def io_throw_def split: option.splits)

theorem sendActivity_validation_failure_witness:
  "(\<exists>msg. sendActivity (ex_env ex_accepted)
            (ex_send (ex_activity\<lparr>activity_id := None\<rparr>) ex_keys None) = (Inl (TypeError msg), []))
   \<and> (\<exists>msg. sendActivity (ex_env ex_accepted)
            (ex_send (ex_activity\<lparr>actorId := None\<rparr>) ex_keys None) = (Inl (TypeError msg), []))
   \<and> (\<exists>msg. sendActivity (ex_env ex_accepted)
            (ex_send ex_activity [] None) = (Inl (TypeError msg), []))"
proof -
  have a: "activity_id (activity (ex_send (ex_activity\<lparr>activity_id := None\<rparr>) ex_keys None)) = None"
    by (simp add: ex_send_def)
  have b: "actorId (activity (ex_send (ex_activity\<lparr>actorId := None\<rparr>) ex_keys None)) = None"
    by (simp add: ex_send_def)
  have c: "keys (ex_send ex_activity [] None) = []"
    by (simp add: ex_send_def)
  show ?thesis
    using sendActivity_validation_failure [OF disjI1, OF a, of "ex_env ex_accepted"]
      sendActivity_validation_failure [OF disjI2, OF disjI1, OF b, of "ex_env ex_accepted"]
      sendActivity_validation_failure [OF disjI2, OF disjI2, OF c, of "ex_env ex_accepted"]
    by blast
qed

subsection \<open>Validation before signing\<close>

text \<open>The four ways one iteration of the loop over the keys can go.\<close>

lemma sign_keys_Cons_cases:
  obtains
    (invalid) e where
      "sign_keys env dl cl (k # ks) (act, pc, rk) =
         (Inl e, [ValidateCryptoKey (privateKey k) ''private''])"
  | (kept) st1 where
      "validateCryptoKey env (privateKey k) ''private'' = Inr ()"
      "sign_keys env dl cl (k # ks) (act, pc, rk) =
         (fst (sign_keys env dl cl ks st1),
          ValidateCryptoKey (privateKey k) ''private'' # snd (sign_keys env dl cl ks st1))"
      "st1 = (act, pc, Some k) \<or> st1 = (act, pc, rk)"
  | (unsigned) e where
      "validateCryptoKey env (privateKey k) ''private'' = Inr ()"
      "sign_keys env dl cl (k # ks) (act, pc, rk) =
         (Inl e, [ValidateCryptoKey (privateKey k) ''private'',
                  SignObject act (privateKey k) (keyId k)])"
  | (signed) act' where
      "validateCryptoKey env (privateKey k) ''private'' = Inr ()"
      "sign_keys env dl cl (k # ks) (act, pc, rk) =
         (fst (sign_keys env dl cl ks (act', True, rk)),
          ValidateCryptoKey (privateKey k) ''private'' #
          SignObject act (privateKey k) (keyId k) #
          snd (sign_keys env dl cl ks (act', True, rk)))"
proof (cases "validateCryptoKey env (privateKey k) ''private''")
  case (Inl e)
  then show ?thesis by (intro invalid [of e]) (simp add: io_defs)
next
  case (Inr u)
  show ?thesis
  proof (cases "rk = None \<and> algorithm_name (privateKey k) = ''RSASSA-PKCS1-v1_5''")
    case True
    with Inr show ?thesis
      by (intro kept [of "(act, pc, Some k)"]) (simp_all add: io_defs split: prod.splits)
  next
    case notrsa: False
    show ?thesis
    proof (cases "algorithm_name (privateKey k) = ''Ed25519''")
      case False
      with Inr notrsa show ?thesis
        by (intro kept [of "(act, pc, rk)"]) (auto simp: io_defs split: prod.splits)
    next
      case True
      show ?thesis
      proof (cases "signObject env act (privateKey k) (keyId k) dl cl")
        case (Inl e)
        with Inr notrsa True show ?thesis
          by (intro unsigned [of e]) (auto simp: io_defs split: prod.splits)
      next
        case act': (Inr act')
        with Inr notrsa True show ?thesis
          by (intro signed [of act']) (auto simp: io_defs split: prod.splits)
      qed
    qed
  qed
qed








subsection \<open>The response\<close>

lemma is_Fetch_simps [simp]:
  "\<not> is_Fetch (ValidateCryptoKey k p)"
  "\<not> is_Fetch (SignObject a k u)"
  "\<not> is_Fetch (ToJsonLd a)"
  "\<not> is_Fetch (SignJsonLd doc k u)"
  "\<not> is_Fetch (SignRequest r k u)"
  "is_Fetch (Fetch r)"
  "\<not> is_Fetch ResponseText"
  "\<not> is_Fetch (LogWarn msg subject lks)"
  "\<not> is_Fetch (LogError msg aid ihref st stt er)"
  by (simp_all add: is_Fetch_def)

lemma sign_keys_no_Fetch:
  "Fetch request \<notin> set (snd (sign_keys env dl cl ks st))"
proof (induction ks arbitrary: st)
  case Nil
  show ?case by (simp add: io_defs)
next
  case (Cons k ks)
  obtain act pc rk where st: "st = (act, pc, rk)" by (cases st)
  show ?case
    unfolding st
    by (cases rule: sign_keys_Cons_cases [of env dl cl k ks act pc rk])
      (simp_all add: Cons.IH)
qed

lemma filter_is_Fetch_sign_keys:
  "filter is_Fetch (snd (sign_keys env dl cl ks st)) = []"
proof (induction ks arbitrary: st)
  case Nil
  show ?case by (simp add: io_defs)
next
  case (Cons k ks)
  obtain act pc rk where st: "st = (act, pc, rk)" by (cases st)
  show ?case
    unfolding st
    by (cases rule: sign_keys_Cons_cases [of env dl cl k ks act pc rk])
      (simp_all add: Cons.IH)
qed

lemma handle_response_cases:
  "handle_response a i resp =
     (if ok resp then (Inr (), [])
      else (Inl (Error (failure_message a (href i) resp
                   (case response_text resp of Inl e \<Rightarrow> '''' | Inr text \<Rightarrow> text))),
            [ResponseText,
             LogError send_failure_template a (href i) (status resp) (statusText resp)
               (case response_text resp of Inl e \<Rightarrow> '''' | Inr text \<Rightarrow> text)]))"
  by (simp add: handle_response_def io_defs split: sum.splits)

lemma send_rest_delivered:
  assumes "send_rest env ps activityId act pc rk = (r, t)"
    and "Fetch request \<in> set t"
    and "fetch env request = Inr response"
  shows "delivered activityId (inbox ps) request response r t"
  using assms
  unfolding send_rest_def handle_response_cases delivered_def
  by (auto simp: io_defs Let_def split: sum.splits option.splits prod.splits if_splits)

lemma send_rest_success:
  assumes "fst (send_rest env ps activityId act pc rk) = Inr ()"
  shows "\<exists>request response.
           Fetch request \<in> set (snd (send_rest env ps activityId act pc rk)) \<and>
           fetch env request = Inr response \<and> ok response"
  using assms
  unfolding send_rest_def handle_response_cases
  by (auto simp: io_defs Let_def split: sum.splits option.splits prod.splits if_splits)

lemma send_rest_fetch_once:
  "length (filter is_Fetch (snd (send_rest env ps activityId act pc rk))) \<le> 1"
  unfolding send_rest_def handle_response_cases
  by (auto simp: io_defs Let_def split: sum.splits option.splits prod.splits if_splits)

text \<open>A send whose request was answered by a response.\<close>

lemma sendActivity_delivered:
  assumes run: "sendActivity env ps = (r, t)"
    and aid: "activity_id (activity ps) = Some aid"
    and fetched: "Fetch request \<in> set t"
    and resp: "fetch env request = Inr response"
  shows "delivered (href aid) (inbox ps) request response r t"
proof -
  have nonempty: "t \<noteq> []" using fetched by auto
  have pre: "actorId (activity ps) \<noteq> None \<and> keys ps \<noteq> []"
  proof (rule ccontr)
    assume "\<not> ?thesis"
    then have "snd (sendActivity env ps) = []"
      using aid by (auto simp: sendActivity_def io_throw_def)
    with run nonempty show False by simp
  qed
  let ?loop = "sign_keys env (documentLoader ps) (contextLoader ps) (keys ps)
                 (activity ps, False, None)"
  have split: "sendActivity env ps =
      io_bind ?loop (\<lambda>(act, proofCreated, rsaKey).
        send_rest env ps (href aid) act proofCreated rsaKey)"
    using sendActivity_split [OF aid] pre by blast
  show ?thesis
  proof (cases "fst ?loop")
    case (Inl e)
    then have "t = snd ?loop"
      using run unfolding split by (simp add: io_bind_Inl)
    moreover have "Fetch request \<notin> set (snd ?loop)"
      by (rule sign_keys_no_Fetch)
    ultimately show ?thesis using fetched by blast
  next
    case (Inr st')
    obtain act pc rk where st': "st' = (act, pc, rk)" by (cases st')
    let ?rest = "send_rest env ps (href aid) act pc rk"
    have r: "r = fst ?rest" and t: "t = snd ?loop @ snd ?rest"
      using run Inr st' unfolding split by (simp_all add: io_bind_Inr)
    have "Fetch request \<notin> set (snd ?loop)"
      by (rule sign_keys_no_Fetch)
    then have in_rest: "Fetch request \<in> set (snd ?rest)"
      using fetched unfolding t by auto
    have "delivered (href aid) (inbox ps) request response (fst ?rest) (snd ?rest)"
      by (rule send_rest_delivered [OF _ in_rest resp]) simp
    then show ?thesis
      unfolding r t delivered_def
      by (auto simp: filter_is_Fetch_sign_keys Let_def)
  qed
qed

text \<open>A send that returns has fetched a request that was answered with a 2xx status.\<close>

lemma sendActivity_success_fetched:
  assumes run: "sendActivity env ps = (Inr (), t)"
  shows "\<exists>request response. Fetch request \<in> set t \<and> fetch env request = Inr response \<and>
           ok response"
proof -
  have pre: "activity_id (activity ps) \<noteq> None \<and> actorId (activity ps) \<noteq> None \<and> keys ps \<noteq> []"
  proof (rule ccontr)
    assume "\<not> ?thesis"
    then have "\<exists>msg. sendActivity env ps = (Inl (TypeError msg), [])"
      by (auto simp: sendActivity_def io_throw_def split: option.splits)
    with run show False by auto
  qed
  then obtain aid where aid: "activity_id (activity ps) = Some aid" by auto
  let ?loop = "sign_keys env (documentLoader ps) (contextLoader ps) (keys ps)
                 (activity ps, False, None)"
  have split: "sendActivity env ps =
      io_bind ?loop (\<lambda>(act, proofCreated, rsaKey).
        send_rest env ps (href aid) act proofCreated rsaKey)"
    using sendActivity_split [OF aid] pre by blast
  show ?thesis
  proof (cases "fst ?loop")
    case (Inl e)
    then show ?thesis
      using run unfolding split by (simp add: io_bind_Inl)
  next
    case (Inr st')
    obtain act pc rk where st': "st' = (act, pc, rk)" by (cases st')
    let ?rest = "send_rest env ps (href aid) act pc rk"
    have r: "fst ?rest = Inr ()" and t: "t = snd ?loop @ snd ?rest"
      using run Inr st' unfolding split by (simp_all add: io_bind_Inr)
    from send_rest_success [OF r] show ?thesis
      unfolding t by auto
  qed
qed

lemma sendActivity_fetch_once:
  "length (filter is_Fetch (snd (sendActivity env ps))) \<le> 1"
proof (cases "activity_id (activity ps) = None \<or> actorId (activity ps) = None \<or> keys ps = []")
  case True
  then have "snd (sendActivity env ps) = []"
    by (auto simp: sendActivity_def io_throw_def split: option.splits)
  then show ?thesis by simp
next
  case False
  then obtain aid where aid: "activity_id (activity ps) = Some aid"
    and actor: "actorId (activity ps) \<noteq> None" and ks: "keys ps \<noteq> []"
    by auto
  let ?loop = "sign_keys env (documentLoader ps) (contextLoader ps) (keys ps)
                 (activity ps, False, None)"
  note split = sendActivity_split [OF aid actor ks, of env]
  show ?thesis
  proof (cases "fst ?loop")
    case (Inl e)
    then show ?thesis
      unfolding split by (simp add: io_bind_Inl filter_is_Fetch_sign_keys)
  next
    case (Inr st')
    obtain act pc rk where st': "st' = (act, pc, rk)" by (cases st')
    show ?thesis
      unfolding split using Inr st' send_rest_fetch_once [of env ps "href aid" act pc rk]
      by (simp add: io_bind_Inr filter_is_Fetch_sign_keys)
  qed
qed

text \<open>
  Claim C8.  \<open>sendActivity\<close> returns successfully (with no value) if and only if it has
  fetched a request and the response to it has a 2xx status: a send that makes no request,
  or whose request gets no response, does not return successfully.  No send fetches more
  than once: there is no retry.  When the request of a send was answered by a response, the
  send returns successfully exactly when the status is 2xx; for any other status the trace
  ends with the fetch, the reading of the body as text and a log record at error severity,
  and the send throws an \<^verbatim>\<open>Error\<close> whose message carries the activity's identity, the inbox
  URL, the status code and text, and the body text (empty when the body cannot be read).
  The failure is not caught.
\<close>

theorem sendActivity_delivery:
  assumes run: "sendActivity env ps = (r, t)"
  shows "(r = Inr ()) =
           (\<exists>request response.
              Fetch request \<in> set t \<and> fetch env request = Inr response \<and> ok response)
    \<and> length (filter is_Fetch t) \<le> 1
    \<and> (\<forall>aid request response.
         activity_id (activity ps) = Some aid \<longrightarrow>
         Fetch request \<in> set t \<longrightarrow>
         fetch env request = Inr response \<longrightarrow>
           (r = Inr ()) = ok response
         \<and> length (filter is_Fetch t) = 1
         \<and> (ok response \<longrightarrow> (\<exists>pre. t = pre @ [Fetch request]))
         \<and> (\<not> ok response \<longrightarrow>
              (let body = (case response_text response of Inl e \<Rightarrow> '''' | Inr text \<Rightarrow> text) in
               r = Inl (Error (failure_message (href aid) (href (inbox ps)) response body)) \<and>
               (\<exists>pre. t = pre @
                  [Fetch request, ResponseText,
                   LogError send_failure_template (href aid) (href (inbox ps))
                     (status response) (statusText response) body]))))"
proof (intro conjI allI impI)
  show "(r = Inr ()) =
          (\<exists>request response.
             Fetch request \<in> set t \<and> fetch env request = Inr response \<and> ok response)"
  proof
    assume "r = Inr ()"
    with run have "sendActivity env ps = (Inr (), t)" by simp
    then show "\<exists>request response.
        Fetch request \<in> set t \<and> fetch env request = Inr response \<and> ok response"
      by (rule sendActivity_success_fetched)
  next
    assume "\<exists>request response.
        Fetch request \<in> set t \<and> fetch env request = Inr response \<and> ok response"
    then obtain request response where fetched: "Fetch request \<in> set t"
      and resp: "fetch env request = Inr response" and ok: "ok response"
      by blast
    have "activity_id (activity ps) \<noteq> None"
    proof
      assume "activity_id (activity ps) = None"
      then have "snd (sendActivity env ps) = []"
        by (simp add: sendActivity_def io_throw_def)
      with run fetched show False by simp
    qed
    then obtain aid where aid: "activity_id (activity ps) = Some aid" by auto
    from sendActivity_delivered [OF run aid fetched resp] ok show "r = Inr ()"
      by (simp add: delivered_def)
  qed
next
  show "length (filter is_Fetch t) \<le> 1"
    using sendActivity_fetch_once [of env ps] run by simp
next
  fix aid request response
  assume aid: "activity_id (activity ps) = Some aid"
    and fetched: "Fetch request \<in> set t"
    and resp: "fetch env request = Inr response"
  note d = sendActivity_delivered [OF run aid fetched resp, unfolded delivered_def]
  show "(r = Inr ()) = ok response" using d by blast
  show "length (filter is_Fetch t) = 1" using d by blast
  show "\<exists>pre. t = pre @ [Fetch request]" if "ok response" using d that by blast
  show "let body = (case response_text response of Inl e \<Rightarrow> '''' | Inr text \<Rightarrow> text) in
        r = Inl (Error (failure_message (href aid) (href (inbox ps)) response body)) \<and>
        (\<exists>pre. t = pre @
           [Fetch request, ResponseText,
            LogError send_failure_template (href aid) (href (inbox ps))
              (status response) (statusText response) body])"
    if "\<not> ok response" using d that by blast
qed

text \<open>
  A destination answering 500 with the body \<^verbatim>\<open>boom\<close>, one answering 404 with a body that
  cannot be read, one answering 202, and a destination whose URL holds credentials, for
  which no request is made.
\<close>

theorem sendActivity_delivery_witness:
  "fst (sendActivity (ex_env (ex_response 500 ''Internal Server Error'' (Inr ''boom'')))
          (ex_send ex_activity ex_keys None)) =
     Inl (Error (''Failed to send activity a/1 to b/in (500 Internal Server Error):'' @
                 [CHR 0x0A] @ ''boom''))
   \<and> length (filter is_Fetch
         (snd (sendActivity (ex_env (ex_response 500 ''Internal Server Error'' (Inr ''boom'')))
                 (ex_send ex_activity ex_keys None)))) = 1
   \<and> fst (sendActivity (ex_env (ex_response 404 ''Not Found'' (Inl (Thrown ''body''))))
          (ex_send ex_activity ex_keys None)) =
     Inl (Error (''Failed to send activity a/1 to b/in (404 Not Found):'' @ [CHR 0x0A]))
   \<and> fst (sendActivity (ex_env ex_accepted) (ex_send ex_activity ex_keys None)) = Inr ()
   \<and> fst (sendActivity (ex_env ex_accepted)
            ((ex_send ex_activity ex_keys None)
             \<lparr>inbox := \<lparr>href = ''u:p@b/in'', origin = ''b'', username = ''u'',
                        password = ''p''\<rparr>\<rparr>)) \<noteq> Inr ()"
proof -
  let ?P = "ex_send ex_activity ex_keys None"
  let ?S = "(ex_send ex_activity ex_keys None)
            \<lparr>inbox := \<lparr>href = ''u:p@b/in'', origin = ''b'', username = ''u'',
                       password = ''p''\<rparr>\<rparr>"
  let ?R1 = "ex_response 500 ''Internal Server Error'' (Inr ''boom'')"
  let ?R2 = "ex_response 404 ''Not Found'' (Inl (Thrown ''body''))"
  let ?req = "ex_request [(''Content-Type'', ''application/activity+json''),
                          (''Signature'', ''k2'')] ''doc:k1,k4;ld=k2''"
  have aid: "activity_id (activity ?P) =
      Some \<lparr>href = ''a/1'', origin = ''a'', username = '''', password = ''''\<rparr>"
    by (simp add: ex_send_defs)
  have f1: "Fetch ?req \<in> set (snd (sendActivity (ex_env ?R1) ?P))"
    by (simp add: sendActivity_def handle_response_def ok_def io_defs ex_send_defs
        ex_response_def)
  have f2: "Fetch ?req \<in> set (snd (sendActivity (ex_env ?R2) ?P))"
    by (simp add: sendActivity_def handle_response_def ok_def io_defs ex_send_defs
        ex_response_def)
  have f3: "Fetch ?req \<in> set (snd (sendActivity (ex_env ex_accepted) ?P))"
    by (simp add: sendActivity_def handle_response_def ok_def io_defs ex_send_defs)
  have f4: "\<not> (\<exists>request. Fetch request \<in> set (snd (sendActivity (ex_env ex_accepted) ?S)))"
    by (simp add: sendActivity_def handle_response_def ok_def io_defs ex_send_defs)
  have r1: "fetch (ex_env ?R1) ?req = Inr ?R1" by (simp add: ex_env_def)
  have r2: "fetch (ex_env ?R2) ?req = Inr ?R2" by (simp add: ex_env_def)
  have r3: "fetch (ex_env ex_accepted) ?req = Inr ex_accepted" by (simp add: ex_env_def)
  have ok3: "ok ex_accepted" by (simp add: ok_def ex_accepted_def)
  have s500: "show_nat 500 = ''500''" and s404: "show_nat 404 = ''404''"
    by (simp_all add: show_nat.simps)
  have a: "fst (sendActivity (ex_env ?R1) ?P) =
      Inl (Error (''Failed to send activity a/1 to b/in (500 Internal Server Error):'' @
                  [CHR 0x0A] @ ''boom''))
    \<and> length (filter is_Fetch (snd (sendActivity (ex_env ?R1) ?P))) = 1"
    using sendActivity_delivery [OF surjective_pairing, of "ex_env ?R1" ?P] aid f1 r1
    by (simp add: ok_def ex_response_def failure_message_def s500 ex_send_def Let_def)
  have b: "fst (sendActivity (ex_env ?R2) ?P) =
      Inl (Error (''Failed to send activity a/1 to b/in (404 Not Found):'' @ [CHR 0x0A]))"
    using sendActivity_delivery [OF surjective_pairing, of "ex_env ?R2" ?P] aid f2 r2
    by (simp add: ok_def ex_response_def failure_message_def s404 ex_send_def Let_def)
  have c: "fst (sendActivity (ex_env ex_accepted) ?P) = Inr ()"
    using sendActivity_delivery [OF surjective_pairing, of "ex_env ex_accepted" ?P] f3 r3 ok3
    by blast
  have d: "fst (sendActivity (ex_env ex_accepted) ?S) \<noteq> Inr ()"
    using sendActivity_delivery [OF surjective_pairing, of "ex_env ex_accepted" ?S] f4
    by blast
  show ?thesis using a b c d by blast
qed

subsection \<open>The headers of the request\<close>

lemma same_header_name_trans:
  "same_header_name a b \<Longrightarrow> same_header_name b c \<Longrightarrow> same_header_name a c"
  by (simp add: same_header_name_def)

lemma same_header_name_sym: "same_header_name a b = same_header_name b a"
  by (auto simp: same_header_name_def)

lemma filter_same_removed:
  "same_header_name name other \<Longrightarrow>
   filter (\<lambda>h. \<not> same_header_name (fst h) other \<and> same_header_name (fst h) name) hs = []"
  by (induction hs) (auto simp: same_header_name_def)

lemma filter_other_kept:
  "\<not> same_header_name name other \<Longrightarrow>
   filter (\<lambda>h. \<not> same_header_name (fst h) other \<and> same_header_name (fst h) name) hs =
   filter (\<lambda>h. same_header_name (fst h) name) hs"
  by (induction hs) (auto simp: same_header_name_def)

lemma filter_Headers_set_other:
  "\<not> same_header_name name other \<Longrightarrow>
   filter (\<lambda>h. same_header_name (fst h) name) (Headers_set hs other v) =
   filter (\<lambda>h. same_header_name (fst h) name) hs"
proof (induction hs)
  case Nil
  then show ?case by (auto simp: same_header_name_def)
next
  case (Cons h hs)
  obtain n w where h: "h = (n, w)" by (cases h)
  show ?case
  proof (cases "same_header_name n other")
    case True
    with Cons.prems have "\<not> same_header_name n name" by (auto simp: same_header_name_def)
    with True Cons.prems show ?thesis by (simp add: h filter_other_kept)
  next
    case False
    with Cons show ?thesis by (simp add: h)
  qed
qed

lemma filter_Headers_set_same:
  "same_header_name name other \<Longrightarrow>
   map snd (filter (\<lambda>h. same_header_name (fst h) name) (Headers_set hs other v)) = [v]"
proof (induction hs)
  case Nil
  then show ?case by (auto simp: same_header_name_def)
next
  case (Cons h hs)
  obtain n w where h: "h = (n, w)" by (cases h)
  show ?case
  proof (cases "same_header_name n other")
    case True
    with Cons.prems have "same_header_name n name" by (simp add: same_header_name_def)
    with True Cons.prems show ?thesis by (simp add: h filter_same_removed)
  next
    case False
    with Cons.prems have "\<not> same_header_name n name" by (auto simp: same_header_name_def)
    with False Cons show ?thesis by (simp add: h)
  qed
qed

lemma Headers_get_set:
  "Headers_get (Headers_set hs other v) name =
     (if same_header_name name other then Some v else Headers_get hs name)"
proof (cases "same_header_name name other")
  case True
  from filter_Headers_set_same [OF True, of hs v]
  show ?thesis
    using True by (auto simp: Headers_get_def split: list.splits)
next
  case False
  then show ?thesis by (simp add: Headers_get_def filter_Headers_set_other)
qed

lemma built_request_headers:
  "new_Request u m (Headers_set (new_Headers init) ''Content-Type''
                      ''application/activity+json'') b = Inr req \<Longrightarrow>
   activity_headers init req"
  by (auto simp: new_Request_def activity_headers_def Headers_get_set same_header_name_def
      split: if_splits)

lemma signed_request_headers:
  assumes "signer_keeps_headers env"
    and "signRequest env req pk kid = Inr req'"
    and "activity_headers init req"
  shows "activity_headers init req'"
proof -
  have keep: "\<And>name. Headers_get (request_headers req) name \<noteq> None \<Longrightarrow>
      Headers_get (request_headers req') name = Headers_get (request_headers req) name"
    using assms(1,2) unfolding signer_keeps_headers_def by blast
  show ?thesis
    using assms(3) keep unfolding activity_headers_def by (metis option.distinct(1))
qed


lemma sign_keys_events:
  "ev \<in> set (snd (sign_keys env dl cl ks st)) \<Longrightarrow>
   (\<exists>pk p. ev = ValidateCryptoKey pk p) \<or> (\<exists>a pk kid. ev = SignObject a pk kid)"
proof (induction ks arbitrary: st)
  case Nil
  then show ?case by (simp add: io_defs)
next
  case (Cons k ks)
  obtain act pc rk where st: "st = (act, pc, rk)" by (cases st)
  show ?case
    using Cons.prems unfolding st
    by (cases rule: sign_keys_Cons_cases [of env dl cl k ks act pc rk])
      (auto dest: Cons.IH)
qed

lemma send_rest_requests:
  assumes "send_rest env ps activityId act pc rk = (r, t)"
  shows "(\<forall>req pk kid. SignRequest req pk kid \<in> set t \<longrightarrow> activity_headers (headers ps) req)
    \<and> (\<forall>req. Fetch req \<in> set t \<longrightarrow>
          activity_headers (headers ps) req \<or>
          (\<exists>req0 pk kid. SignRequest req0 pk kid \<in> set t \<and>
             signRequest env req0 pk kid = Inr req))"
  using assms
  unfolding send_rest_def handle_response_cases
  by (auto simp: io_defs Let_def dest: built_request_headers
      split: sum.splits option.splits prod.splits if_splits)

text \<open>
  Claim C10.  In every send, the request that \<open>sendActivity\<close> builds and hands to the request
  signer, or to \<open>fetch\<close> when there is no RSA key, has the content type
  \<^verbatim>\<open>application/activity+json\<close>, whatever content type the caller's headers held, and
  holds every other header of the caller unchanged.  A fetched request is either that
  request or what the signer returned for it; so when the signer keeps the headers it is
  given, every fetched request has the content type of an activity and the caller's other
  headers.
\<close>

theorem sendActivity_content_type:
  assumes run: "sendActivity env ps = (r, t)"
  shows "(\<forall>req pk kid. SignRequest req pk kid \<in> set t \<longrightarrow> activity_headers (headers ps) req)
    \<and> (\<forall>req. Fetch req \<in> set t \<longrightarrow>
          activity_headers (headers ps) req \<or>
          (\<exists>req0 pk kid. SignRequest req0 pk kid \<in> set t \<and>
             signRequest env req0 pk kid = Inr req))
    \<and> (signer_keeps_headers env \<longrightarrow>
          (\<forall>req. Fetch req \<in> set t \<longrightarrow> activity_headers (headers ps) req))"
proof -
  let ?good = "activity_headers (headers ps)"
  have main: "(\<forall>req pk kid. SignRequest req pk kid \<in> set t \<longrightarrow> ?good req)
    \<and> (\<forall>req. Fetch req \<in> set t \<longrightarrow>
          ?good req \<or>
          (\<exists>req0 pk kid. SignRequest req0 pk kid \<in> set t \<and>
             signRequest env req0 pk kid = Inr req))"
  proof (cases "activity_id (activity ps) = None \<or> actorId (activity ps) = None \<or> keys ps = []")
    case True
    then have "snd (sendActivity env ps) = []"
      by (auto simp: sendActivity_def io_throw_def split: option.splits)
    with run show ?thesis by simp
  next
    case False
    then obtain aid where aid: "activity_id (activity ps) = Some aid"
      and actor: "actorId (activity ps) \<noteq> None" and ks: "keys ps \<noteq> []"
      by auto
    let ?loop = "sign_keys env (documentLoader ps) (contextLoader ps) (keys ps)
                   (activity ps, False, None)"
    note split = sendActivity_split [OF aid actor ks, of env]
    have loop_events: "\<And>ev. ev \<in> set (snd ?loop) \<Longrightarrow>
        (\<exists>pk p. ev = ValidateCryptoKey pk p) \<or> (\<exists>a pk kid. ev = SignObject a pk kid)"
      by (rule sign_keys_events)
    show ?thesis
    proof (cases "fst ?loop")
      case (Inl e)
      then have "t = snd ?loop"
        using run unfolding split by (simp add: io_bind_Inl)
      with loop_events show ?thesis by fastforce
    next
      case (Inr st')
      obtain act pc rk where st': "st' = (act, pc, rk)" by (cases st')
      let ?rest = "send_rest env ps (href aid) act pc rk"
      have t: "t = snd ?loop @ snd ?rest"
        using run Inr st' unfolding split by (simp_all add: io_bind_Inr)
      have rest: "(\<forall>req pk kid. SignRequest req pk kid \<in> set (snd ?rest) \<longrightarrow> ?good req)
        \<and> (\<forall>req. Fetch req \<in> set (snd ?rest) \<longrightarrow>
              ?good req \<or>
              (\<exists>req0 pk kid. SignRequest req0 pk kid \<in> set (snd ?rest) \<and>
                 signRequest env req0 pk kid = Inr req))"
        by (rule send_rest_requests [of env ps "href aid" act pc rk "fst ?rest"]) simp
      have a: "\<And>req pk kid. SignRequest req pk kid \<in> set t \<Longrightarrow>
          SignRequest req pk kid \<in> set (snd ?rest)"
        using loop_events unfolding t by fastforce
      have b: "\<And>req. Fetch req \<in> set t \<Longrightarrow> Fetch req \<in> set (snd ?rest)"
        using loop_events unfolding t by fastforce
      have c: "set (snd ?rest) \<subseteq> set t" unfolding t by simp
      show ?thesis
        using rest a b c by (meson subsetD)
    qed
  qed
  have "\<forall>req. Fetch req \<in> set t \<longrightarrow> ?good req" if keeps: "signer_keeps_headers env"
  proof (intro allI impI)
    fix req assume "Fetch req \<in> set t"
    with main consider "?good req"
      | req0 pk kid where "SignRequest req0 pk kid \<in> set t"
          "signRequest env req0 pk kid = Inr req"
      by blast
    then show "?good req"
    proof cases
      case 1 then show ?thesis .
    next
      case 2
      with main have "?good req0" by blast
      with keeps 2(2) show ?thesis by (rule signed_request_headers)
    qed
  qed
  with main show ?thesis by blast
qed

lemma ex_signer_keeps_headers: "signer_keeps_headers (ex_env response)"
proof -
  have "Headers_get (if Headers_get hs ''Signature'' = None
                     then hs @ [(''Signature'', v)] else hs) name = Headers_get hs name"
    if "Headers_get hs name \<noteq> None" for hs :: Headers and v name
  proof (cases "same_header_name name ''Signature''")
    case True
    then have "Headers_get hs ''Signature'' = Headers_get hs name"
      by (simp add: Headers_get_def same_header_name_def)
    with that show ?thesis by auto
  next
    case False
    then have "\<not> same_header_name ''Signature'' name"
      by (auto simp: same_header_name_def)
    then show ?thesis by (simp add: Headers_get_def)
  qed
  then show ?thesis
    by (auto simp: signer_keeps_headers_def ex_env_def)
qed

text \<open>
  A caller that supplies a content type of its own, in another case, and one more header.
\<close>

theorem sendActivity_content_type_witness:
  "signer_keeps_headers (ex_env ex_accepted)
   \<and> Fetch (ex_request [(''content-type'', ''application/activity+json''), (''X-Trace'', ''1''),
                        (''Signature'', ''k2'')] ''doc:k1,k4;ld=k2'')
       \<in> set (snd (sendActivity (ex_env ex_accepted)
                     (ex_send ex_activity ex_keys
                        (Some [(''content-type'', ''text/plain''), (''X-Trace'', ''1'')]))))
   \<and> activity_headers (Some [(''content-type'', ''text/plain''), (''X-Trace'', ''1'')])
       (ex_request [(''content-type'', ''application/activity+json''), (''X-Trace'', ''1''),
                    (''Signature'', ''k2'')] ''doc:k1,k4;ld=k2'')
   \<and> Headers_get [(''content-type'', ''application/activity+json''), (''X-Trace'', ''1''),
                   (''Signature'', ''k2'')] ''Content-Type'' = Some ''application/activity+json''
   \<and> Headers_get [(''content-type'', ''application/activity+json''), (''X-Trace'', ''1''),
                   (''Signature'', ''k2'')] ''x-trace'' = Some ''1''"
proof -
  let ?hs = "Some [(''content-type'', ''text/plain''), (''X-Trace'', ''1'')]"
  let ?P = "ex_send ex_activity ex_keys ?hs"
  let ?req = "ex_request [(''content-type'', ''application/activity+json''), (''X-Trace'', ''1''),
                          (''Signature'', ''k2'')] ''doc:k1,k4;ld=k2''"
  have keeps: "signer_keeps_headers (ex_env ex_accepted)"
    by (rule ex_signer_keeps_headers)
  have fetched: "Fetch ?req \<in> set (snd (sendActivity (ex_env ex_accepted) ?P))"
    by (simp add: sendActivity_def handle_response_def ok_def io_defs ex_send_defs)
  have hs: "headers ?P = ?hs" by (simp add: ex_send_def)
  have good: "activity_headers ?hs ?req"
    using sendActivity_content_type [OF surjective_pairing, of "ex_env ex_accepted" ?P]
      keeps fetched unfolding hs by blast
  have get1: "Headers_get (request_headers ?req) ''Content-Type'' =
      Some ''application/activity+json''"
    by (simp add: ex_request_def Headers_get_def same_header_name_def lower_char_def)
  have get2: "Headers_get (request_headers ?req) ''x-trace'' = Some ''1''"
    by (simp add: ex_request_def Headers_get_def same_header_name_def lower_char_def)
  show ?thesis
    using keeps fetched good get1 get2 by (simp add: ex_request_def)
qed

section \<open>Properties of the generated accessors\<close>

subsection \<open>The candidate types\<close>

lemma candidates_in_order_Cons:
  "candidates_in_order vocab dl cl declared (n # names) jsonLd =
     (if mismatch vocab dl cl jsonLd n
      then (fst (candidates_in_order vocab dl cl declared names jsonLd),
            FromJsonLd n jsonLd # snd (candidates_in_order vocab dl cl declared names jsonLd))
      else (fromJsonLd vocab n jsonLd dl cl, [FromJsonLd n jsonLd]))"
proof (cases "mismatch vocab dl cl jsonLd n")
  case False
  then show ?thesis by (simp add: candidates_in_order_def)
next
  case True
  then show ?thesis
    by (cases "dropWhile (mismatch vocab dl cl jsonLd) names")
      (simp_all add: candidates_in_order_def del: dropWhile_eq_Nil_conv)
qed

lemma try_candidates_in_order:
  "try_candidates types vocab dl cl whole rs jsonLd =
     candidates_in_order vocab dl cl whole (attempted types rs) jsonLd"
proof (induction rs)
  case Nil
  show ?case
    by (simp add: candidates_in_order_def attempted_def exhausted_message_def io_defs)
next
  case (Cons r rs)
  show ?case
  proof (cases "types r")
    case None
    with Cons show ?thesis by (simp add: attempted_def)
  next
    case (Some rangeType)
    have att: "attempted types (r # rs) = type_name rangeType # attempted types rs"
      using Some by (simp add: attempted_def)
    show ?thesis
    proof (cases "fromJsonLd vocab (type_name rangeType) jsonLd dl cl")
      case (Inr obj)
      then show ?thesis
        using Some by (simp add: att candidates_in_order_Cons mismatch_def io_defs)
    next
      case (Inl e)
      show ?thesis
      proof (cases "is_TypeError e")
        case False
        with Inl Some show ?thesis
          by (simp add: att candidates_in_order_Cons mismatch_def io_defs)
      next
        case True
        with Inl Some Cons show ?thesis
          by (simp add: att candidates_in_order_Cons mismatch_def io_defs split: prod.splits)
      qed
    qed
  qed
qed

lemma join_names:
  "r \<in> set rs \<Longrightarrow> \<exists>pre post. join sep rs = pre @ r @ post"
proof (induction sep rs rule: join.induct)
  case (1 sep)
  then show ?case by simp
next
  case (2 sep x)
  then show ?case by (auto intro: exI [of _ "[]"])
next
  case (3 sep x y ys)
  show ?case
  proof (cases "r = x")
    case True
    then show ?thesis by (auto intro: exI [of _ "[]"])
  next
    case False
    with 3 obtain pre post where "join sep (y # ys) = pre @ r @ post" by auto
    then have "join sep (x # y # ys) = (x @ sep @ pre) @ r @ post" by simp
    then show ?thesis by blast
  qed
qed

text \<open>
  Claim C7.  The parser of a resolvable property tries the property's candidate types in
  declared order: it calls the parsers of the classes of the range one after the other as
  long as they report a type mismatch (a \<^verbatim>\<open>TypeError\<close>); the first parser that succeeds
  gives the result, the first one that fails otherwise gives the failure, and no later
  parser is called; when they all report a mismatch the parser throws a \<^verbatim>\<open>TypeError\<close>
  whose message contains every entry of the declared range, hence every attempted type.
\<close>

theorem prop_fromJsonLd_candidates:
  "prop_fromJsonLd types property vocab this opts jsonLd =
     candidates_in_order vocab
       (pick_loader (options_documentLoader opts) (this_documentLoader this)
          (getDocumentLoader vocab))
       (pick_loader (options_contextLoader opts) (this_contextLoader this)
          (getDocumentLoader vocab))
       (property_range property) (attempted types (property_range property)) jsonLd
   \<and> (\<forall>r\<in>set (property_range property).
         \<exists>pre post. exhausted_message (property_range property) = pre @ r @ post)"
proof
  show "prop_fromJsonLd types property vocab this opts jsonLd =
     candidates_in_order vocab
       (pick_loader (options_documentLoader opts) (this_documentLoader this)
          (getDocumentLoader vocab))
       (pick_loader (options_contextLoader opts) (this_contextLoader this)
          (getDocumentLoader vocab))
       (property_range property) (attempted types (property_range property)) jsonLd"
    by (simp add: prop_fromJsonLd_def Let_def try_candidates_in_order)
  show "\<forall>r\<in>set (property_range property).
         \<exists>pre post. exhausted_message (property_range property) = pre @ r @ post"
  proof
    fix r assume "r \<in> set (property_range property)"
    then obtain pre post where "join '', '' (property_range property) = pre @ r @ post"
      using join_names by blast
    then have "exhausted_message (property_range property) =
        (''Expected an object of any type of: '' @ pre) @ r @ post"
      by (simp add: exhausted_message_def)
    then show "\<exists>pre post. exhausted_message (property_range property) = pre @ r @ post"
      by blast
  qed
qed

lemmas ex_vocab_defs =
  ex_types_def ex_property_def ex_parse_def ex_doc_def ex_loader_def ex_vocab_def ex_object_def
  ex_ref_def ex_this_def ex_options_def ex_cached_def

text \<open>
  A note: the \<^verbatim>\<open>Person\<close> parser reports a mismatch, the \<^verbatim>\<open>Note\<close> parser succeeds.  An
  object of a third type: both report a mismatch.  A string: the first parser fails
  otherwise and the second is not called.
\<close>

theorem prop_fromJsonLd_candidates_witness:
  "prop_fromJsonLd ex_types ex_property ex_vocab (ex_this [] None) (ex_options None)
     (ex_doc ''Note'' ''a/1'') =
     (Inr (ex_object ''Note'' ''a/1''),
      [FromJsonLd ''Person'' (ex_doc ''Note'' ''a/1''), FromJsonLd ''Note'' (ex_doc ''Note'' ''a/1'')])
   \<and> prop_fromJsonLd ex_types ex_property ex_vocab (ex_this [] None) (ex_options None)
       (ex_doc ''Place'' ''a/2'') =
     (Inl (TypeError ''Expected an object of any type of: as:Person, xsd:string, as:Note''),
      [FromJsonLd ''Person'' (ex_doc ''Place'' ''a/2''), FromJsonLd ''Note'' (ex_doc ''Place'' ''a/2'')])
   \<and> prop_fromJsonLd ex_types ex_property ex_vocab (ex_this [] None) (ex_options None)
       (JString ''x'') =
     (Inl (Thrown ''not an object''), [FromJsonLd ''Person'' (JString ''x'')])"
  using prop_fromJsonLd_candidates
      [of ex_types ex_property ex_vocab "ex_this [] None" "ex_options None" "ex_doc ''Note'' ''a/1''"]
    prop_fromJsonLd_candidates
      [of ex_types ex_property ex_vocab "ex_this [] None" "ex_options None" "ex_doc ''Place'' ''a/2''"]
    prop_fromJsonLd_candidates
      [of ex_types ex_property ex_vocab "ex_this [] None" "ex_options None" "JString ''x''"]
  by (simp add: candidates_in_order_def attempted_def mismatch_def is_TypeError_def
      exhausted_message_def ex_vocab_defs)

subsection \<open>The calls of the document loader\<close>

lemma loads_simps [simp]:
  "loads [] = []"
  "loads (Load u # t) = u # loads t"
  "loads (FromJsonLd n d # t) = loads t"
  "loads (LogFetchFailure s e # t) = loads t"
  "loads (LogParseFailure s e # t) = loads t"
  by (simp_all add: loads_def map_filter_simps)

lemma loads_append [simp]: "loads (t @ t') = loads t @ loads t'"
  by (simp add: loads_def map_filter_def)

lemma loads_candidates_in_order:
  "loads (snd (candidates_in_order vocab dl cl declared names jsonLd)) = []"
proof (induction names)
  case Nil
  show ?case by (simp add: candidates_in_order_def)
next
  case (Cons n names)
  then show ?case by (simp add: candidates_in_order_Cons)
qed

lemma loads_prop_fromJsonLd:
  "loads (snd (prop_fromJsonLd types property vocab this opts jsonLd)) = []"
  by (simp add: prop_fromJsonLd_def Let_def try_candidates_in_order loads_candidates_in_order)

text \<open>The resolution of a reference calls the document loader once, first, with the URL.\<close>

lemma prop_fetch_trace:
  "\<exists>t. snd (prop_fetch types property vocab this opts u) = Load (href u) # t \<and> loads t = []"
proof -
  let ?dl = "pick_loader (options_documentLoader opts) (this_documentLoader this)
               (getDocumentLoader vocab)"
  show ?thesis
  proof (cases "?dl (href u)")
    case (Inl e)
    then show ?thesis
      by (simp add: prop_fetch_def Let_def io_defs)
  next
    case (Inr document)
    let ?cl = "pick_loader (options_contextLoader opts) (this_contextLoader this)
                 (getDocumentLoader vocab)"
    let ?parse = "prop_fromJsonLd types property vocab this
                    (opts\<lparr>options_documentLoader := Some ?dl, options_contextLoader := Some ?cl\<rparr>)
                    document"
    have "loads (snd ?parse) = []" by (rule loads_prop_fromJsonLd)
    then show ?thesis
      using Inr
      by (cases ?parse) (auto simp: prop_fetch_def Let_def io_defs split: sum.splits)
  qed
qed

lemma loads_prop_fetch:
  "loads (snd (prop_fetch types property vocab this opts u)) = [href u]"
  using prop_fetch_trace [of types property vocab this opts u] by auto

lemma prop_fetch_suppressed:
  "suppressError opts = Some True \<Longrightarrow>
   \<exists>r. fst (prop_fetch types property vocab this opts u) = Inr r"
  by (auto simp: prop_fetch_def Let_def io_defs split: sum.splits prod.splits)


subsection \<open>The shortcut through the cached document\<close>

text \<open>
  Claim C6, as amended.  A slot that holds a Reference is always resolved through the
  Document Loader, called once with the reference's URL, whatever the parent's cached source
  document holds.  The shortcut applies to a slot that holds an Inline object: when the
  parent retains its compacted source document and that document holds, at the property and
  position, an inline sub-document with a context of its own, the accessor parses that
  fragment and returns the result without calling the Document Loader; otherwise it returns
  the held object.  In both cases the slot is left as it is.
\<close>

theorem getX_shortcut:
  "(field this = Reference u # rest \<longrightarrow>
      fst (getX types property vocab opts this) = prop_fetch types property vocab this opts u \<and>
      loads (snd (fst (getX types property vocab opts this))) = [href u])
   \<and> (field this = Inline v # rest \<longrightarrow>
        cached_fragment (compactName property) (cachedJsonLd this) 0 = Some obj \<longrightarrow>
        getX types property vocab opts this =
          (io_bind (prop_fromJsonLd types property vocab this opts obj)
             (\<lambda>parsed. io_return (Some parsed)), this) \<and>
        loads (snd (fst (getX types property vocab opts this))) = [])
   \<and> (field this = Inline v # rest \<longrightarrow>
        cached_fragment (compactName property) (cachedJsonLd this) 0 = None \<longrightarrow>
        getX types property vocab opts this = ((Inr (Some v), []), this))"
proof (intro conjI impI)
  assume ref: "field this = Reference u # rest"
  show a: "fst (getX types property vocab opts this) = prop_fetch types property vocab this opts u"
    using ref by (simp add: getX_def split: prod.splits sum.splits option.splits)
  show "loads (snd (fst (getX types property vocab opts this))) = [href u]"
    unfolding a by (rule loads_prop_fetch)
next
  assume inl: "field this = Inline v # rest"
    and frag: "cached_fragment (compactName property) (cachedJsonLd this) 0 = Some obj"
  show b: "getX types property vocab opts this =
          (io_bind (prop_fromJsonLd types property vocab this opts obj)
             (\<lambda>parsed. io_return (Some parsed)), this)"
    using inl frag by (simp add: getX_def)
  have "loads (snd (prop_fromJsonLd types property vocab this opts obj)) = []"
    by (rule loads_prop_fromJsonLd)
  then show "loads (snd (fst (getX types property vocab opts this))) = []"
    unfolding b
    by (cases "prop_fromJsonLd types property vocab this opts obj")
      (auto simp: io_defs split: sum.splits)
next
  assume inl: "field this = Inline v # rest"
    and nofrag: "cached_fragment (compactName property) (cachedJsonLd this) 0 = None"
  show "getX types property vocab opts this = ((Inr (Some v), []), this)"
    using inl nofrag by (simp add: getX_def io_defs)
qed

text \<open>
  A parent whose cached document holds the actor inline, with a context of its own: a slot
  holding a reference is loaded all the same, a slot holding an object is parsed again from
  the cached fragment.
\<close>

theorem getX_shortcut_witness:
  "loads (snd (fst (getX ex_types ex_property ex_vocab (ex_options None)
                      (ex_this [Reference (ex_ref ''a/3'')] (Some ex_cached))))) = [''a/3'']
   \<and> getX ex_types ex_property ex_vocab (ex_options None)
         (ex_this [Inline (ex_object ''Note'' ''a/7'')] (Some ex_cached)) =
       ((Inr (Some (ex_object ''Person'' ''a/7'')),
         [FromJsonLd ''Person'' (ex_doc ''Person'' ''a/7'')]),
        ex_this [Inline (ex_object ''Note'' ''a/7'')] (Some ex_cached))
   \<and> getX ex_types ex_property ex_vocab (ex_options None)
         (ex_this [Inline (ex_object ''Note'' ''a/7'')] None) =
       ((Inr (Some (ex_object ''Note'' ''a/7'')), []),
        ex_this [Inline (ex_object ''Note'' ''a/7'')] None)"
proof -
  let ?R = "ex_this [Reference (ex_ref ''a/3'')] (Some ex_cached)"
  let ?I = "ex_this [Inline (ex_object ''Note'' ''a/7'')] (Some ex_cached)"
  let ?N = "ex_this [Inline (ex_object ''Note'' ''a/7'')] None"
  have r: "field ?R = Reference (ex_ref ''a/3'') # []" by (simp add: ex_this_def)
  have i: "field ?I = Inline (ex_object ''Note'' ''a/7'') # []" by (simp add: ex_this_def)
  have n: "field ?N = Inline (ex_object ''Note'' ''a/7'') # []" by (simp add: ex_this_def)
  have fi: "cached_fragment (compactName ex_property) (cachedJsonLd ?I) 0 =
      Some (ex_doc ''Person'' ''a/7'')"
    by (simp add: cached_fragment_def has_context_def js_member_def element_def ex_vocab_defs)
  have fn: "cached_fragment (compactName ex_property) (cachedJsonLd ?N) 0 = None"
    by (simp add: cached_fragment_def has_context_def js_member_def element_def ex_vocab_defs)
  have parse: "prop_fromJsonLd ex_types ex_property ex_vocab ?I (ex_options None)
      (ex_doc ''Person'' ''a/7'') =
      (Inr (ex_object ''Person'' ''a/7''), [FromJsonLd ''Person'' (ex_doc ''Person'' ''a/7'')])"
    by (simp add: prop_fromJsonLd_def pick_loader_def io_defs ex_vocab_defs Let_def)
  note inst = getX_shortcut [of _ _ _ ex_types ex_property ex_vocab "ex_options None"]
  from inst [of ?R "ex_ref ''a/3''" "[]"] r
  have 1: "loads (snd (fst (getX ex_types ex_property ex_vocab (ex_options None) ?R))) =
      [href (ex_ref ''a/3'')]" by blast
  from inst [of ?I _ _ "ex_object ''Note'' ''a/7''" "ex_doc ''Person'' ''a/7''"] i fi
  have 2: "getX ex_types ex_property ex_vocab (ex_options None) ?I =
      (io_bind (prop_fromJsonLd ex_types ex_property ex_vocab ?I (ex_options None)
                  (ex_doc ''Person'' ''a/7''))
         (\<lambda>parsed. io_return (Some parsed)), ?I)" by blast
  from inst [of ?N _ _ "ex_object ''Note'' ''a/7''"] n fn
  have 3: "getX ex_types ex_property ex_vocab (ex_options None) ?N =
      ((Inr (Some (ex_object ''Note'' ''a/7'')), []), ?N)" by blast
  show ?thesis
    using 1 2 3 by (simp add: parse io_defs ex_ref_def)
qed

text \<open>
  Claim C6 as stated fails.  The parent retains its compacted source document, which holds
  an inline sub-document with a context of its own at the property; the slot holds a
  reference.  The loader is called with the reference's URL, and the object returned is the
  loaded one, not the inline fragment.
\<close>

theorem getX_reference_ignores_cached_fragment:
  "cached_fragment (compactName ex_property)
     (cachedJsonLd (ex_this [Reference (ex_ref ''a/3'')] (Some ex_cached))) 0 =
     Some (ex_doc ''Person'' ''a/7'')
   \<and> fst (getX ex_types ex_property ex_vocab (ex_options None)
            (ex_this [Reference (ex_ref ''a/3'')] (Some ex_cached))) =
       (Inr (Some (ex_object ''Person'' ''a/3'')),
        [Load ''a/3'', FromJsonLd ''Person'' (ex_doc ''Person'' ''a/3'')])"
  by (simp add: getX_def prop_fetch_def prop_fromJsonLd_def pick_loader_def io_defs Let_def
      cached_fragment_def has_context_def js_member_def element_def ex_vocab_defs)

subsection \<open>The identity accessors\<close>

text \<open>
  Claim C9.  The identity accessors are functions of the property's slots alone: they take
  no loader and no options, return no trace and leave the instance as it is, so they
  perform no I/O and resolve nothing.  A slot holding a Reference contributes its URL, a
  slot holding an Inline object contributes that object's identity (nothing, in the plural
  accessor, when that identity is null), and the singular accessor returns null when the
  property is empty.
\<close>

theorem get_Id_reads_slots:
  "get_Id this =
     (case field this of
        [] \<Rightarrow> None
      | Reference u # rest \<Rightarrow> Some u
      | Inline obj # rest \<Rightarrow> object_id obj)
   \<and> get_Ids this =
       concat (map (\<lambda>v. case v of
                          Reference u \<Rightarrow> [u]
                        | Inline obj \<Rightarrow> (case object_id obj of None \<Rightarrow> [] | Some i \<Rightarrow> [i]))
                 (field this))
   \<and> get_Id (this\<lparr>cachedJsonLd := c, this_documentLoader := dl, this_contextLoader := cl\<rparr>) =
       get_Id this
   \<and> get_Ids (this\<lparr>cachedJsonLd := c, this_documentLoader := dl, this_contextLoader := cl\<rparr>) =
       get_Ids this"
proof -
  have ids: "List.map_filter (\<lambda>id. id)
        (map (\<lambda>v. case v of Reference u \<Rightarrow> Some u | Inline obj \<Rightarrow> object_id obj) vs) =
      concat (map (\<lambda>v. case v of
                          Reference u \<Rightarrow> [u]
                        | Inline obj \<Rightarrow> (case object_id obj of None \<Rightarrow> [] | Some i \<Rightarrow> [i])) vs)"
    for vs :: "('a fobject_scheme) slot list"
    by (induction vs) (auto simp: map_filter_simps split: slot.splits option.splits)
  show ?thesis
    by (auto simp: get_Id_def get_Ids_def ids split: list.splits slot.splits)
qed

theorem get_Id_reads_slots_witness:
  "get_Id (ex_this [] None) = None
   \<and> get_Id (ex_this [Reference (ex_ref ''a/3''), Inline (ex_object ''Note'' ''a/7'')] None) =
       Some (ex_ref ''a/3'')
   \<and> get_Ids (ex_this [Reference (ex_ref ''a/3''), Inline (ex_object ''Note'' ''a/7''),
                        Inline \<lparr>object_id = None, class_name = ''Note''\<rparr>] None) =
       [ex_ref ''a/3'', ex_ref ''a/7'']"
  using get_Id_reads_slots [of "ex_this [] None"]
    get_Id_reads_slots
      [of "ex_this [Reference (ex_ref ''a/3''), Inline (ex_object ''Note'' ''a/7'')] None"]
    get_Id_reads_slots
      [of "ex_this [Reference (ex_ref ''a/3''), Inline (ex_object ''Note'' ''a/7''),
                    Inline \<lparr>object_id = None, class_name = ''Note''\<rparr>] None"]
  by (simp add: ex_this_def ex_object_def ex_ref_def)

subsection \<open>Memoization\<close>

lemma yield_then_simp [simp]: "yield_then ys t (ys', e, t', vs) = (ys @ ys', e, t @ t', vs)"
  by (simp add: yield_then_def)

text \<open>One pass over slots that all hold references, with failures suppressed.\<close>

lemma getXs_loop_references:
  assumes sup: "suppressError opts = Some True"
  shows "drop i vs = map Reference us \<Longrightarrow>
     getXs_loop types property vocab opts this i vs =
       (List.map_filter (resolved types property vocab this opts) us,
        None,
        concat (map (\<lambda>u. snd (prop_fetch types property vocab this opts u)) us),
        take i vs @ map (memoized types property vocab this opts) us)"
proof (induction us arbitrary: i vs)
  case Nil
  then have "\<not> i < length vs" by simp
  with Nil show ?case by (simp add: getXs_loop.simps [of _ _ _ _ _ i vs])
next
  case (Cons u us)
  from Cons.prems have i: "i < length vs"
    by (metis drop_eq_Nil linorder_not_less list.simps(3) list.map_disc_iff)
  from Cons.prems i have at: "vs ! i = Reference u" and rest: "drop (Suc i) vs = map Reference us"
    by (simp_all add: Cons_nth_drop_Suc [symmetric])
  obtain r t where fetch: "prop_fetch types property vocab this opts u = (Inr r, t)"
    using prop_fetch_suppressed [OF sup, of types property vocab this u]
    by (cases "prop_fetch types property vocab this opts u") auto
  show ?case
  proof (cases r)
    case None
    have tk: "take (Suc i) vs = take i vs @ [Reference u]"
      using i at by (simp add: take_Suc_conv_app_nth)
    show ?thesis
      using i at fetch None Cons.IH [OF rest]
      by (simp add: getXs_loop.simps [of _ _ _ _ _ i vs] resolved_def memoized_def
          map_filter_simps tk)
  next
    case (Some fetched)
    let ?vs = "vs[i := Inline fetched]"
    have rest': "drop (Suc i) ?vs = map Reference us"
      using rest by simp
    have tk: "take (Suc i) ?vs = take i vs @ [Inline fetched]"
      using i by (simp add: take_Suc_conv_app_nth)
    show ?thesis
      using i at fetch Some Cons.IH [OF rest']
      by (simp add: getXs_loop.simps [of _ _ _ _ _ i vs] resolved_def memoized_def
          map_filter_simps tk)
  qed
qed

text \<open>Any pass calls the loader only for slots that hold a reference.\<close>

lemma loads_getXs_loop:
  "set (loads (fst (snd (snd (getXs_loop types property vocab opts this i vs))))) \<subseteq>
     {href u | u. Reference u \<in> set (drop i vs)}"
proof (induction types property vocab opts this i vs rule: getXs_loop.induct)
  case (1 types property vocab opts this i vs)
  show ?case
  proof (cases "i < length vs")
    case False
    then show ?thesis by (simp add: getXs_loop.simps [of _ _ _ _ _ i vs])
  next
    case True
    have here: "vs ! i \<in> set (drop i vs)"
      using True by (metis Cons_nth_drop_Suc list.set_intros(1))
    have later: "set (drop (Suc i) vs) \<subseteq> set (drop i vs)"
      by (simp add: set_drop_subset_set_drop)
    show ?thesis
    proof (cases "vs ! i")
      case (Reference u)
      obtain r t where fetch: "prop_fetch types property vocab this opts u = (r, t)"
        by (cases "prop_fetch types property vocab this opts u")
      have lt: "loads t = [href u]"
        using loads_prop_fetch [of types property vocab this opts u] fetch by simp
      have u: "Reference u \<in> set (drop i vs)" using here Reference by simp
      show ?thesis
      proof (cases r)
        case (Inl e)
        with True Reference fetch lt u show ?thesis
          by (auto simp: getXs_loop.simps [of _ _ _ _ _ i vs])
      next
        case (Inr opt)
        show ?thesis
        proof (cases opt)
          case None
          obtain ys e t' vs' where
            next_: "getXs_loop types property vocab opts this (Suc i) vs = (ys, e, t', vs')"
            by (cases "getXs_loop types property vocab opts this (Suc i) vs") auto
          from "1.IH"(1) [OF True Reference fetch [symmetric] Inr None]
          have "set (loads t') \<subseteq> {href u | u. Reference u \<in> set (drop (Suc i) vs)}"
            using next_ by simp
          with later have "set (loads t') \<subseteq> {href u | u. Reference u \<in> set (drop i vs)}"
            by blast
          with True Reference fetch Inr None lt u next_ show ?thesis
            by (auto simp: getXs_loop.simps [of _ _ _ _ _ i vs])
        next
          case (Some fetched)
          let ?vs = "vs[i := Inline fetched]"
          obtain ys e t' vs' where
            next_: "getXs_loop types property vocab opts this (Suc i) ?vs = (ys, e, t', vs')"
            by (cases "getXs_loop types property vocab opts this (Suc i) ?vs") auto
          have d: "drop (Suc i) ?vs = drop (Suc i) vs" by simp
          from "1.IH"(2) [OF True Reference fetch [symmetric] Inr Some]
          have "set (loads t') \<subseteq> {href u | u. Reference u \<in> set (drop (Suc i) vs)}"
            using next_ d by simp
          with later have "set (loads t') \<subseteq> {href u | u. Reference u \<in> set (drop i vs)}"
            by blast
          with True Reference fetch Inr Some lt u next_ show ?thesis
            by (auto simp: getXs_loop.simps [of _ _ _ _ _ i vs])
        qed
      qed
    next
      case (Inline v)
      obtain ys e t' vs' where
        next_: "getXs_loop types property vocab opts this (Suc i) vs = (ys, e, t', vs')"
        by (cases "getXs_loop types property vocab opts this (Suc i) vs") auto
      show ?thesis
      proof (cases "cached_fragment (compactName property) (cachedJsonLd this) i")
        case None
        from "1.IH"(3) [OF True Inline None]
        have "set (loads t') \<subseteq> {href u | u. Reference u \<in> set (drop (Suc i) vs)}"
          using next_ by simp
        with later have "set (loads t') \<subseteq> {href u | u. Reference u \<in> set (drop i vs)}"
          by blast
        with True Inline None next_ show ?thesis
          by (auto simp: getXs_loop.simps [of _ _ _ _ _ i vs])
      next
        case (Some obj)
        obtain r t where parse: "prop_fromJsonLd types property vocab this opts obj = (r, t)"
          by (cases "prop_fromJsonLd types property vocab this opts obj")
        have lt: "loads t = []"
          using loads_prop_fromJsonLd [of types property vocab this opts obj] parse by simp
        show ?thesis
        proof (cases r)
          case (Inl err)
          with True Inline Some parse lt show ?thesis
            by (auto simp: getXs_loop.simps [of _ _ _ _ _ i vs])
        next
          case (Inr parsed)
          from "1.IH"(4) [OF True Inline Some parse [symmetric] Inr]
          have "set (loads t') \<subseteq> {href u | u. Reference u \<in> set (drop (Suc i) vs)}"
            using next_ by simp
          with later have "set (loads t') \<subseteq> {href u | u. Reference u \<in> set (drop i vs)}"
            by blast
          with True Inline Some parse Inr lt next_ show ?thesis
            by (auto simp: getXs_loop.simps [of _ _ _ _ _ i vs])
        qed
      qed
    qed
  qed
qed


lemma getX_Inline_loads:
  assumes "field this = Inline v # rest"
  shows "loads (snd (fst (getX types property vocab opts this))) = []"
proof (cases "cached_fragment (compactName property) (cachedJsonLd this) 0")
  case None
  with assms show ?thesis by (simp add: getX_def io_defs)
next
  case (Some obj)
  have "loads (snd (prop_fromJsonLd types property vocab this opts obj)) = []"
    by (rule loads_prop_fromJsonLd)
  with assms Some show ?thesis
    by (cases "prop_fromJsonLd types property vocab this opts obj")
      (auto simp: getX_def io_defs split: sum.splits)
qed

lemma prop_fetch_None:
  "fst (prop_fetch types property vocab this opts u) = Inr None \<Longrightarrow>
   suppressError opts = Some True"
  by (auto simp: prop_fetch_def Let_def io_defs split: sum.splits prod.splits if_splits)

lemma references_left:
  "{href u | u. Reference u \<in> set (map (memoized types property vocab this opts) us)} \<subseteq>
   {href u | u. u \<in> set us \<and> resolved types property vocab this opts u = None}"
  by (auto simp: memoized_def split: option.splits)

text \<open>
  The loop of \<open>getXs\<close> over the indices, updating the slots in place, is the visit of the
  slots in order.
\<close>

lemma getXs_loop_resolve_slots:
  "i \<le> length vs \<Longrightarrow>
   getXs_loop types property vocab opts this i vs =
     (case resolve_slots types property vocab opts this i (drop i vs) of
        (ys, e, t, vs') \<Rightarrow> (ys, e, t, take i vs @ vs'))"
proof (induction "length vs - i" arbitrary: i vs)
  case 0
  then have "i = length vs" by simp
  then show ?case by (simp add: getXs_loop.simps [of _ _ _ _ _ "length vs" vs])
next
  case (Suc n)
  then have i: "i < length vs" by simp
  have d: "drop i vs = vs ! i # drop (Suc i) vs"
    using i by (simp add: Cons_nth_drop_Suc)
  have whole: "take i vs @ vs ! i # drop (Suc i) vs = vs"
    using i by (simp add: id_take_nth_drop [symmetric])
  have tk: "take (Suc i) vs = take i vs @ [vs ! i]"
    using i by (simp add: take_Suc_conv_app_nth)
  have same: "getXs_loop types property vocab opts this (Suc i) vs =
      (case resolve_slots types property vocab opts this (Suc i) (drop (Suc i) vs) of
         (ys, e, t, vs') \<Rightarrow> (ys, e, t, take (Suc i) vs @ vs'))"
    using Suc.hyps(1) [of vs "Suc i"] Suc.hyps(2) i by simp
  have replaced: "getXs_loop types property vocab opts this (Suc i) (vs[i := x]) =
      (case resolve_slots types property vocab opts this (Suc i) (drop (Suc i) vs) of
         (ys, e, t, vs') \<Rightarrow> (ys, e, t, take i vs @ [x] @ vs'))" for x
    using Suc.hyps(1) [of "vs[i := x]" "Suc i"] Suc.hyps(2) i
    by (simp add: take_Suc_conv_app_nth)
  show ?case
  proof (cases "vs ! i")
    case (Reference u)
    obtain r t where fetch: "prop_fetch types property vocab this opts u = (r, t)"
      by (cases "prop_fetch types property vocab this opts u")
    show ?thesis
    proof (cases r)
      case (Inl e)
      with i Reference fetch whole show ?thesis
        by (simp add: getXs_loop.simps [of _ _ _ _ _ i vs] d slot_outcome_def io_defs)
    next
      case (Inr opt)
      show ?thesis
      proof (cases opt)
        case None
        with i Reference fetch Inr show ?thesis
          by (simp add: getXs_loop.simps [of _ _ _ _ _ i vs] d slot_outcome_def io_defs
              same tk split: prod.splits)
      next
        case (Some fetched)
        with i Reference fetch Inr show ?thesis
          by (simp add: getXs_loop.simps [of _ _ _ _ _ i vs] d slot_outcome_def io_defs
              replaced split: prod.splits)
      qed
    qed
  next
    case (Inline v)
    show ?thesis
    proof (cases "cached_fragment (compactName property) (cachedJsonLd this) i")
      case None
      with i Inline show ?thesis
        by (simp add: getXs_loop.simps [of _ _ _ _ _ i vs] d slot_outcome_def io_defs
            same tk split: prod.splits)
    next
      case (Some obj)
      obtain r t where parse: "prop_fromJsonLd types property vocab this opts obj = (r, t)"
        by (cases "prop_fromJsonLd types property vocab this opts obj")
      show ?thesis
      proof (cases r)
        case (Inl e)
        with i Inline Some parse whole show ?thesis
          by (simp add: getXs_loop.simps [of _ _ _ _ _ i vs] d slot_outcome_def io_defs)
      next
        case (Inr parsed)
        with i Inline Some parse show ?thesis
          by (simp add: getXs_loop.simps [of _ _ _ _ _ i vs] d slot_outcome_def io_defs
              same tk split: prod.splits)
      qed
    qed
  qed
qed

text \<open>
  After a visit every slot is either as it was, or it was a reference that resolved and it
  now holds the resolved object, which was produced.
\<close>

lemma resolve_slots_atomic:
  "resolve_slots types property vocab opts this i vs = (ys, e, t, vs') \<Longrightarrow>
   length vs' = length vs \<and>
   (\<forall>j<length vs.
      vs' ! j = vs ! j \<or>
      (\<exists>u obj. vs ! j = Reference u \<and>
         fst (prop_fetch types property vocab this opts u) = Inr (Some obj) \<and>
         vs' ! j = Inline obj \<and> obj \<in> set ys))"
proof (induction vs arbitrary: i ys e t vs')
  case Nil
  then show ?case by simp
next
  case (Cons v vs)
  obtain r t0 where out: "slot_outcome types property vocab opts this i v = (r, t0)"
    by (cases "slot_outcome types property vocab opts this i v")
  show ?case
  proof (cases r)
    case (Inl err)
    with Cons.prems out show ?thesis by auto
  next
    case (Inr pv)
    obtain produced v' where pv: "pv = (produced, v')" by (cases pv)
    obtain ys1 e1 t1 vs1 where
      rest: "resolve_slots types property vocab opts this (Suc i) vs = (ys1, e1, t1, vs1)"
      by (cases "resolve_slots types property vocab opts this (Suc i) vs") auto
    note IH = Cons.IH [OF rest]
    have ys: "ys = (case produced of None \<Rightarrow> [] | Some obj \<Rightarrow> [obj]) @ ys1"
      and vs': "vs' = v' # vs1"
      using Cons.prems out Inr pv rest by simp_all
    have head: "v' = v \<or>
        (\<exists>u obj. v = Reference u \<and>
           fst (prop_fetch types property vocab this opts u) = Inr (Some obj) \<and>
           v' = Inline obj \<and> produced = Some obj)"
      using out Inr pv
      by (auto simp: slot_outcome_def io_defs split: slot.splits option.splits prod.splits
          sum.splits)
    show ?thesis
    proof (intro conjI allI impI)
      show "length vs' = length (v # vs)" using IH vs' by simp
    next
      fix j assume j: "j < length (v # vs)"
      show "vs' ! j = (v # vs) ! j \<or>
        (\<exists>u obj. (v # vs) ! j = Reference u \<and>
           fst (prop_fetch types property vocab this opts u) = Inr (Some obj) \<and>
           vs' ! j = Inline obj \<and> obj \<in> set ys)"
      proof (cases j)
        case 0
        with head show ?thesis unfolding ys vs' by auto
      next
        case (Suc j')
        with j have "j' < length vs" by simp
        with IH have "vs1 ! j' = vs ! j' \<or>
          (\<exists>u obj. vs ! j' = Reference u \<and>
             fst (prop_fetch types property vocab this opts u) = Inr (Some obj) \<and>
             vs1 ! j' = Inline obj \<and> obj \<in> set ys1)"
          by blast
        then show ?thesis unfolding ys vs' Suc by auto
      qed
    qed
  qed
qed

text \<open>
  Claim C5.  Resolution of a Reference slot is atomic and memoizing.  When the resolution
  of the reference in the first slot succeeds, \<open>getX\<close> returns the resolved object and
  leaves it in the slot as an Inline object, having called the loader once; a second
  \<open>getX\<close> does not call the loader.  When the resolution fails and the failure is suppressed
  (which only happens with \<^verbatim>\<open>suppressError\<close>), \<open>getX\<close> returns null and leaves the instance
  as it was.  With \<^verbatim>\<open>suppressError\<close>, \<open>getXs\<close> over slots holding references yields, in
  slot order, exactly the objects of the references that resolve, ends without an error,
  replaces exactly the slots of those references and leaves the others untouched; a second
  pass calls the loader only for references that did not resolve.  For any slots and any
  options, \<open>getXs\<close> is the visit of the slots in their original order that the
  specification describes (\<open>resolve_slots\<close>): every reference that resolves is replaced in
  place by the resolved object, which is yielded; every reference whose failure is
  suppressed is left untouched, yields nothing, and the sequence goes on with the next slot;
  a failure that is not suppressed ends the sequence, what was yielded and replaced before
  it standing.  After any \<open>getXs\<close> there are as many slots as before, each either as it was
  or a reference replaced by the object it resolved to, which was yielded; and a second
  \<open>getXs\<close> calls the loader only for slots that still hold a reference.
\<close>

theorem reference_resolution_memoizes:
  "(field this = Reference u # rest \<longrightarrow>
      prop_fetch types property vocab this opts u = (Inr (Some obj), t) \<longrightarrow>
      getX types property vocab opts this =
        ((Inr (Some obj), t), this\<lparr>field := Inline obj # rest\<rparr>) \<and>
      loads t = [href u] \<and>
      loads (snd (fst (getX types property vocab opts'
                         (this\<lparr>field := Inline obj # rest\<rparr>)))) = [])
   \<and> (field this = Reference u # rest \<longrightarrow>
        prop_fetch types property vocab this opts u = (Inr None, t) \<longrightarrow>
        getX types property vocab opts this = ((Inr None, t), this) \<and>
        suppressError opts = Some True)
   \<and> (field this = map Reference us \<longrightarrow>
        suppressError opts = Some True \<longrightarrow>
        getXs types property vocab opts this =
          ((List.map_filter (resolved types property vocab this opts) us, None,
            concat (map (\<lambda>u. snd (prop_fetch types property vocab this opts u)) us)),
           this\<lparr>field := map (memoized types property vocab this opts) us\<rparr>) \<and>
        set (loads (snd (snd (fst (getXs types property vocab opts'
               (this\<lparr>field := map (memoized types property vocab this opts) us\<rparr>)))))) \<subseteq>
          {href u | u. u \<in> set us \<and> resolved types property vocab this opts u = None})
   \<and> getXs types property vocab opts this =
       (case resolve_slots types property vocab opts this 0 (field this) of
          (ys, e, t, vs) \<Rightarrow> ((ys, e, t), this\<lparr>field := vs\<rparr>))
   \<and> length (field (snd (getXs types property vocab opts this))) = length (field this)
   \<and> (\<forall>j<length (field this).
         field (snd (getXs types property vocab opts this)) ! j = field this ! j \<or>
         (\<exists>u obj. field this ! j = Reference u \<and>
            fst (prop_fetch types property vocab this opts u) = Inr (Some obj) \<and>
            field (snd (getXs types property vocab opts this)) ! j = Inline obj \<and>
            obj \<in> set (fst (fst (getXs types property vocab opts this)))))
   \<and> set (loads (snd (snd (fst (getXs types property vocab opts'
            (snd (getXs types property vocab opts this))))))) \<subseteq>
       {href u | u. Reference u \<in> set (field (snd (getXs types property vocab opts this)))}"
proof (intro conjI impI)
  assume ref: "field this = Reference u # rest"
    and ok: "prop_fetch types property vocab this opts u = (Inr (Some obj), t)"
  show "getX types property vocab opts this =
      ((Inr (Some obj), t), this\<lparr>field := Inline obj # rest\<rparr>)"
    using ref ok by (simp add: getX_def)
  show "loads t = [href u]"
    using loads_prop_fetch [of types property vocab this opts u] ok by simp
  show "loads (snd (fst (getX types property vocab opts'
                           (this\<lparr>field := Inline obj # rest\<rparr>)))) = []"
    by (rule getX_Inline_loads [of _ obj rest]) simp
next
  assume ref: "field this = Reference u # rest"
    and none: "prop_fetch types property vocab this opts u = (Inr None, t)"
  show "getX types property vocab opts this = ((Inr None, t), this)"
    using ref none by (simp add: getX_def)
  show "suppressError opts = Some True"
    by (rule prop_fetch_None [of types property vocab this opts u]) (simp add: none)
next
  assume refs: "field this = map Reference us"
    and sup: "suppressError opts = Some True"
  let ?vs = "map (memoized types property vocab this opts) us"
  have "drop 0 (field this) = map Reference us" using refs by simp
  from getXs_loop_references [OF sup this, of types property vocab this]
  show "getXs types property vocab opts this =
          ((List.map_filter (resolved types property vocab this opts) us, None,
            concat (map (\<lambda>u. snd (prop_fetch types property vocab this opts u)) us)),
           this\<lparr>field := ?vs\<rparr>)"
    by (simp add: getXs_def)
  let ?after = "this\<lparr>field := ?vs\<rparr>"
  have "set (loads (fst (snd (snd (getXs_loop types property vocab opts' ?after 0 ?vs))))) \<subseteq>
      {href u | u. Reference u \<in> set (drop 0 ?vs)}"
    by (rule loads_getXs_loop)
  also have "\<dots> \<subseteq> {href u | u. u \<in> set us \<and> resolved types property vocab this opts u = None}"
    using references_left [of types property vocab this opts us] by simp
  finally show "set (loads (snd (snd (fst (getXs types property vocab opts' ?after))))) \<subseteq>
      {href u | u. u \<in> set us \<and> resolved types property vocab this opts u = None}"
    by (cases "getXs_loop types property vocab opts' ?after 0 ?vs") (simp add: getXs_def)
next
  show visit: "getXs types property vocab opts this =
      (case resolve_slots types property vocab opts this 0 (field this) of
         (ys, e, t, vs) \<Rightarrow> ((ys, e, t), this\<lparr>field := vs\<rparr>))"
    by (simp add: getXs_def getXs_loop_resolve_slots split: prod.splits)
  obtain ys e t vs where
    rs: "resolve_slots types property vocab opts this 0 (field this) = (ys, e, t, vs)"
    by (cases "resolve_slots types property vocab opts this 0 (field this)") auto
  note atomic = resolve_slots_atomic [OF rs]
  have after: "field (snd (getXs types property vocab opts this)) = vs"
    and yielded: "fst (fst (getXs types property vocab opts this)) = ys"
    unfolding visit rs by simp_all
  show "length (field (snd (getXs types property vocab opts this))) = length (field this)"
    unfolding after using atomic by blast
  show "\<forall>j<length (field this).
      field (snd (getXs types property vocab opts this)) ! j = field this ! j \<or>
      (\<exists>u obj. field this ! j = Reference u \<and>
         fst (prop_fetch types property vocab this opts u) = Inr (Some obj) \<and>
         field (snd (getXs types property vocab opts this)) ! j = Inline obj \<and>
         obj \<in> set (fst (fst (getXs types property vocab opts this))))"
    unfolding after yielded using atomic by blast
  let ?next = "snd (getXs types property vocab opts this)"
  have "set (loads (fst (snd (snd (getXs_loop types property vocab opts' ?next 0
                                     (field ?next)))))) \<subseteq>
      {href u | u. Reference u \<in> set (drop 0 (field ?next))}"
    by (rule loads_getXs_loop)
  then show "set (loads (snd (snd (fst (getXs types property vocab opts' ?next))))) \<subseteq>
      {href u | u. Reference u \<in> set (field ?next)}"
    by (cases "getXs_loop types property vocab opts' ?next 0 (field ?next)")
      (simp add: getXs_def)
qed


text \<open>
  Three references of which the loader does not know the second, with failures suppressed:
  the first and the third object are yielded, in that order, nothing is raised, the second
  slot is left as it was, and a second pass calls the loader for the second URL at most.
  A single reference, resolved and memoized.  With the default options: an object followed
  by two references that resolve, all three yielded in slot order and both references
  replaced; the three references of before, where the first object is yielded and its slot
  replaced, and the failure on the second ends the sequence; and, under a parent that
  retains its source document, an object whose inline sub-document is parsed and yielded in
  its place, the slot keeping the object, followed by a reference that is resolved.
\<close>

theorem reference_resolution_memoizes_witness:
  "getXs ex_types ex_property ex_vocab (ex_options (Some True))
     (ex_this [Reference (ex_ref ''a/1''), Reference (ex_ref ''a/2''), Reference (ex_ref ''a/3'')]
        None) =
     (([ex_object ''Note'' ''a/1'', ex_object ''Person'' ''a/3''], None,
       [Load ''a/1'', FromJsonLd ''Person'' (ex_doc ''Note'' ''a/1''),
        FromJsonLd ''Note'' (ex_doc ''Note'' ''a/1''),
        Load ''a/2'', LogFetchFailure ''a/2'' (Thrown ''not found''),
        Load ''a/3'', FromJsonLd ''Person'' (ex_doc ''Person'' ''a/3'')]),
      ex_this [Inline (ex_object ''Note'' ''a/1''), Reference (ex_ref ''a/2''),
               Inline (ex_object ''Person'' ''a/3'')] None)
   \<and> set (loads (snd (snd (fst (getXs ex_types ex_property ex_vocab (ex_options None)
            (ex_this [Inline (ex_object ''Note'' ''a/1''), Reference (ex_ref ''a/2''),
                      Inline (ex_object ''Person'' ''a/3'')] None)))))) \<subseteq> {''a/2''}
   \<and> getX ex_types ex_property ex_vocab (ex_options None)
         (ex_this [Reference (ex_ref ''a/1'')] None) =
       ((Inr (Some (ex_object ''Note'' ''a/1'')),
         [Load ''a/1'', FromJsonLd ''Person'' (ex_doc ''Note'' ''a/1''),
          FromJsonLd ''Note'' (ex_doc ''Note'' ''a/1'')]),
        ex_this [Inline (ex_object ''Note'' ''a/1'')] None)
   \<and> loads (snd (fst (getX ex_types ex_property ex_vocab (ex_options None)
                        (ex_this [Inline (ex_object ''Note'' ''a/1'')] None)))) = []
   \<and> getXs ex_types ex_property ex_vocab (ex_options None)
       (ex_this [Inline (ex_object ''Note'' ''a/9''), Reference (ex_ref ''a/1''),
                 Reference (ex_ref ''a/3'')] None) =
     (([ex_object ''Note'' ''a/9'', ex_object ''Note'' ''a/1'', ex_object ''Person'' ''a/3''],
       None,
       [Load ''a/1'', FromJsonLd ''Person'' (ex_doc ''Note'' ''a/1''),
        FromJsonLd ''Note'' (ex_doc ''Note'' ''a/1''),
        Load ''a/3'', FromJsonLd ''Person'' (ex_doc ''Person'' ''a/3'')]),
      ex_this [Inline (ex_object ''Note'' ''a/9''), Inline (ex_object ''Note'' ''a/1''),
               Inline (ex_object ''Person'' ''a/3'')] None)
   \<and> getXs ex_types ex_property ex_vocab (ex_options None)
       (ex_this [Reference (ex_ref ''a/1''), Reference (ex_ref ''a/2''),
                 Reference (ex_ref ''a/3'')] None) =
     (([ex_object ''Note'' ''a/1''], Some (Thrown ''not found''),
       [Load ''a/1'', FromJsonLd ''Person'' (ex_doc ''Note'' ''a/1''),
        FromJsonLd ''Note'' (ex_doc ''Note'' ''a/1''), Load ''a/2'']),
      ex_this [Inline (ex_object ''Note'' ''a/1''), Reference (ex_ref ''a/2''),
               Reference (ex_ref ''a/3'')] None)
   \<and> getXs ex_types ex_property ex_vocab (ex_options None)
       (ex_this [Inline (ex_object ''Note'' ''a/9''), Reference (ex_ref ''a/1'')]
          (Some ex_cached)) =
     (([ex_object ''Person'' ''a/7'', ex_object ''Note'' ''a/1''], None,
       [FromJsonLd ''Person'' (ex_doc ''Person'' ''a/7''),
        Load ''a/1'', FromJsonLd ''Person'' (ex_doc ''Note'' ''a/1''),
        FromJsonLd ''Note'' (ex_doc ''Note'' ''a/1'')]),
      ex_this [Inline (ex_object ''Note'' ''a/9''), Inline (ex_object ''Note'' ''a/1'')]
        (Some ex_cached))"
proof -
  let ?us = "[ex_ref ''a/1'', ex_ref ''a/2'', ex_ref ''a/3'']"
  let ?T = "ex_this [Reference (ex_ref ''a/1''), Reference (ex_ref ''a/2''),
                     Reference (ex_ref ''a/3'')] None"
  let ?S = "ex_this [Reference (ex_ref ''a/1'')] None"
  let ?sup = "ex_options (Some True)"
  let ?t1 = "[Load ''a/1'', FromJsonLd ''Person'' (ex_doc ''Note'' ''a/1''),
              FromJsonLd ''Note'' (ex_doc ''Note'' ''a/1'')]"
  have fetch:
    "prop_fetch ex_types ex_property ex_vocab this opts (ex_ref ''a/1'') =
       (Inr (Some (ex_object ''Note'' ''a/1'')), ?t1)"
    "prop_fetch ex_types ex_property ex_vocab this (ex_options (Some True)) (ex_ref ''a/2'') =
       (Inr None, [Load ''a/2'', LogFetchFailure ''a/2'' (Thrown ''not found'')])"
    "prop_fetch ex_types ex_property ex_vocab this opts (ex_ref ''a/3'') =
       (Inr (Some (ex_object ''Person'' ''a/3'')),
        [Load ''a/3'', FromJsonLd ''Person'' (ex_doc ''Person'' ''a/3'')])"
    "prop_fetch ex_types ex_property ex_vocab this (ex_options None) (ex_ref ''a/2'') =
       (Inl (Thrown ''not found''), [Load ''a/2''])"
    "prop_fromJsonLd ex_types ex_property ex_vocab this opts (ex_doc ''Person'' ''a/7'') =
       (Inr (ex_object ''Person'' ''a/7''), [FromJsonLd ''Person'' (ex_doc ''Person'' ''a/7'')])"
    if "this = ex_this vs cached" "opts = ex_options sup"
    for this :: "typed_object self" and opts vs cached sup
    using that
    by (simp_all add: prop_fetch_def prop_fromJsonLd_def pick_loader_def io_defs Let_def
        is_TypeError_def ex_vocab_defs)
  note f = fetch [OF refl refl]
  let ?M = "ex_this [Inline (ex_object ''Note'' ''a/9''), Reference (ex_ref ''a/1''),
                     Reference (ex_ref ''a/3'')] None"
  let ?C = "ex_this [Inline (ex_object ''Note'' ''a/9''), Reference (ex_ref ''a/1'')]
              (Some ex_cached)"
  have nocache: "cached_fragment (compactName ex_property) (cachedJsonLd (ex_this vs None)) i =
      None" for vs :: "typed_object slot list" and i
    by (simp add: cached_fragment_def ex_this_def ex_property_def has_context_def
        js_member_def)
  have cache: "cached_fragment (compactName ex_property) (cachedJsonLd (ex_this vs (Some ex_cached)))
      i = Some (ex_doc ''Person'' ''a/7'')" for vs :: "typed_object slot list" and i
    by (simp add: cached_fragment_def ex_this_def ex_property_def has_context_def
        js_member_def element_def ex_cached_def ex_doc_def Let_def)
  have fieldv: "field (ex_this vs c) = vs" for vs :: "typed_object slot list" and c
    by (simp add: ex_this_def)
  have updc: "(ex_this vs c)\<lparr>field := vs'\<rparr> = ex_this vs' c"
    for vs vs' :: "typed_object slot list" and c
    by (simp add: ex_this_def)
  have visit: "getXs ex_types ex_property ex_vocab (ex_options None) this =
      (case resolve_slots ex_types ex_property ex_vocab (ex_options None) this 0 (field this) of
         (ys, e, t, vs) \<Rightarrow> ((ys, e, t), this\<lparr>field := vs\<rparr>))"
    for this :: "typed_object self"
    using reference_resolution_memoizes
      [where types = ex_types and property = ex_property and vocab = ex_vocab
         and opts = "ex_options None" and this = this]
    by blast
  have mixed: "getXs ex_types ex_property ex_vocab (ex_options None) ?M =
      (([ex_object ''Note'' ''a/9'', ex_object ''Note'' ''a/1'', ex_object ''Person'' ''a/3''],
        None,
        [Load ''a/1'', FromJsonLd ''Person'' (ex_doc ''Note'' ''a/1''),
         FromJsonLd ''Note'' (ex_doc ''Note'' ''a/1''),
         Load ''a/3'', FromJsonLd ''Person'' (ex_doc ''Person'' ''a/3'')]),
       ex_this [Inline (ex_object ''Note'' ''a/9''), Inline (ex_object ''Note'' ''a/1''),
                Inline (ex_object ''Person'' ''a/3'')] None)"
    unfolding visit fieldv
    by (simp add: slot_outcome_def nocache f io_defs updc)
  have raised: "getXs ex_types ex_property ex_vocab (ex_options None)
       (ex_this [Reference (ex_ref ''a/1''), Reference (ex_ref ''a/2''),
                 Reference (ex_ref ''a/3'')] None) =
      (([ex_object ''Note'' ''a/1''], Some (Thrown ''not found''),
        [Load ''a/1'', FromJsonLd ''Person'' (ex_doc ''Note'' ''a/1''),
         FromJsonLd ''Note'' (ex_doc ''Note'' ''a/1''), Load ''a/2'']),
       ex_this [Inline (ex_object ''Note'' ''a/1''), Reference (ex_ref ''a/2''),
                Reference (ex_ref ''a/3'')] None)"
    unfolding visit fieldv
    by (simp add: slot_outcome_def nocache f io_defs updc)
  have cached: "getXs ex_types ex_property ex_vocab (ex_options None) ?C =
      (([ex_object ''Person'' ''a/7'', ex_object ''Note'' ''a/1''], None,
        [FromJsonLd ''Person'' (ex_doc ''Person'' ''a/7''),
         Load ''a/1'', FromJsonLd ''Person'' (ex_doc ''Note'' ''a/1''),
         FromJsonLd ''Note'' (ex_doc ''Note'' ''a/1'')]),
       ex_this [Inline (ex_object ''Note'' ''a/9''), Inline (ex_object ''Note'' ''a/1'')]
         (Some ex_cached))"
    unfolding visit fieldv
    by (simp add: slot_outcome_def cache f io_defs updc)
  have res: "resolved ex_types ex_property ex_vocab ?T ?sup (ex_ref ''a/1'') =
        Some (ex_object ''Note'' ''a/1'')"
      "resolved ex_types ex_property ex_vocab ?T ?sup (ex_ref ''a/2'') = None"
      "resolved ex_types ex_property ex_vocab ?T ?sup (ex_ref ''a/3'') =
        Some (ex_object ''Person'' ''a/3'')"
    by (simp_all add: resolved_def f)
  have fieldT: "field ?T = map Reference ?us" by (simp add: ex_this_def)
  have sup: "suppressError ?sup = Some True" by (simp add: ex_options_def)
  have fieldS: "field ?S = Reference (ex_ref ''a/1'') # []" by (simp add: ex_this_def)
  note inst = reference_resolution_memoizes
    [where types = ex_types and property = ex_property and vocab = ex_vocab]
  from inst [where this = ?T and us = ?us and opts = ?sup and opts' = "ex_options None"]
    fieldT sup
  have plural: "getXs ex_types ex_property ex_vocab ?sup ?T =
      ((List.map_filter (resolved ex_types ex_property ex_vocab ?T ?sup) ?us, None,
        concat (map (\<lambda>u. snd (prop_fetch ex_types ex_property ex_vocab ?T ?sup u)) ?us)),
       ?T\<lparr>field := map (memoized ex_types ex_property ex_vocab ?T ?sup) ?us\<rparr>)"
    and again: "set (loads (snd (snd (fst (getXs ex_types ex_property ex_vocab (ex_options None)
        (?T\<lparr>field := map (memoized ex_types ex_property ex_vocab ?T ?sup) ?us\<rparr>)))))) \<subseteq>
      {href u | u. u \<in> set ?us \<and> resolved ex_types ex_property ex_vocab ?T ?sup u = None}"
    by blast+
  have left: "{href u | u. u \<in> set ?us \<and>
      resolved ex_types ex_property ex_vocab ?T ?sup u = None} \<subseteq> {''a/2''}"
  proof (rule subsetI)
    fix x
    assume "x \<in> {href u | u. u \<in> set ?us \<and>
      resolved ex_types ex_property ex_vocab ?T ?sup u = None}"
    then obtain u where x: "x = href u"
      and u: "u = ex_ref ''a/1'' \<or> u = ex_ref ''a/2'' \<or> u = ex_ref ''a/3''"
      and n: "resolved ex_types ex_property ex_vocab ?T ?sup u = None"
      by auto
    from u n have "u = ex_ref ''a/2''"
      by (metis res(1) res(3) option.distinct(1))
    with x show "x \<in> {''a/2''}" by (simp add: ex_ref_def)
  qed
  from inst [where this = ?S and u = "ex_ref ''a/1''" and rest = "[]"
      and opts = "ex_options None" and opts' = "ex_options None"
      and obj = "ex_object ''Note'' ''a/1''" and t = ?t1]
    fieldS f(1)
  have single: "getX ex_types ex_property ex_vocab (ex_options None) ?S =
      ((Inr (Some (ex_object ''Note'' ''a/1'')), ?t1),
       ?S\<lparr>field := Inline (ex_object ''Note'' ''a/1'') # []\<rparr>)"
    and twice: "loads (snd (fst (getX ex_types ex_property ex_vocab (ex_options None)
        (?S\<lparr>field := Inline (ex_object ''Note'' ''a/1'') # []\<rparr>)))) = []"
    by blast+
  have mem: "map (memoized ex_types ex_property ex_vocab ?T ?sup) ?us =
      [Inline (ex_object ''Note'' ''a/1''), Reference (ex_ref ''a/2''),
       Inline (ex_object ''Person'' ''a/3'')]"
    by (simp add: memoized_def res)
  have upd: "(ex_this vs None)\<lparr>field := vs'\<rparr> = ex_this vs' None"
    for vs vs' :: "typed_object slot list"
    by (simp add: ex_this_def)
  have trace: "concat (map (\<lambda>u. snd (prop_fetch ex_types ex_property ex_vocab ?T ?sup u)) ?us) =
      ?t1 @ [Load ''a/2'', LogFetchFailure ''a/2'' (Thrown ''not found'')] @
      [Load ''a/3'', FromJsonLd ''Person'' (ex_doc ''Person'' ''a/3'')]"
    by (simp add: f)
  have yields: "List.map_filter (resolved ex_types ex_property ex_vocab ?T ?sup) ?us =
      [ex_object ''Note'' ''a/1'', ex_object ''Person'' ''a/3'']"
    by (simp add: map_filter_simps res)
  show ?thesis
    using again left
    unfolding plural single twice [unfolded upd] mem upd trace yields mixed raised cached
    by simp
qed

end
